theory Spec2Isabelle
  imports Main "HOL-Library.Word" "HOL-Library.Sublist" "HOL-Library.AList"
begin

section \<open>Session core: the bounded output buffer (cli-session-manager)\<close>

text \<open>
  A JavaScript string is a sequence of UTF-16 code units and \<open>.length\<close> counts code
  units, so the terminal buffer is a list of 16-bit words.
\<close>

type_synonym jsstring = "16 word list"

definition BUFFER_LIMIT :: nat where
  "BUFFER_LIMIT = 64 * 1024"

definition ESC :: "16 word" where
  "ESC = 0x1B"

definition NL :: "16 word" where
  "NL = 0x0A"

definition CR :: "16 word" where
  "CR = 0x0D"

text \<open>
  \<open>buf.indexOf(x, start)\<close> for a one-unit search string: the least index at or after
  \<open>start\<close> holding \<open>x\<close>; \<open>None\<close> stands for the result \<open>-1\<close>.
\<close>

fun index_from :: "'a \<Rightarrow> 'a list \<Rightarrow> nat \<Rightarrow> nat option" where
  "index_from x [] k = None"
| "index_from x (y # ys) k = (if y = x then Some k else index_from x ys (Suc k))"

definition indexOf :: "'a list \<Rightarrow> 'a \<Rightarrow> nat \<Rightarrow> nat option" where
  "indexOf buf x start = index_from x (drop start buf) start"

text \<open>\<open>buf.slice(k)\<close> for \<open>0 \<le> k\<close> is \<open>drop k buf\<close>.\<close>

definition trimToSafeStart :: "jsstring \<Rightarrow> jsstring" where
  "trimToSafeStart buf =
     (if length buf \<le> BUFFER_LIMIT then buf
      else
        let start = length buf - BUFFER_LIMIT in
        case indexOf buf ESC start of
          Some nextEsc \<Rightarrow> drop nextEsc buf
        | None \<Rightarrow>
            (case indexOf buf NL start of
               Some nextNl \<Rightarrow> drop (nextNl + 1) buf
             | None \<Rightarrow>
                 (case indexOf buf CR start of
                    Some nextCr \<Rightarrow> drop (nextCr + 1) buf
                  | None \<Rightarrow> drop (length buf - BUFFER_LIMIT) buf)))"

text \<open>
  The position predicates of the trim-point rule: \<open>first_at buf x c i\<close> says that \<open>i\<close>
  is the first position at or after \<open>c\<close> holding \<open>x\<close>; \<open>absent_from buf x c\<close> says
  that no position at or after \<open>c\<close> holds \<open>x\<close>.
\<close>

definition first_at :: "'a list \<Rightarrow> 'a \<Rightarrow> nat \<Rightarrow> nat \<Rightarrow> bool" where
  "first_at buf x c i \<longleftrightarrow>
     c \<le> i \<and> i < length buf \<and> buf ! i = x \<and> (\<forall>j \<in> {c..<i}. buf ! j \<noteq> x)"

definition absent_from :: "'a list \<Rightarrow> 'a \<Rightarrow> nat \<Rightarrow> bool" where
  "absent_from buf x c \<longleftrightarrow> (\<forall>j \<in> {c..<length buf}. buf ! j \<noteq> x)"

section \<open>Host paths (node:path on POSIX)\<close>

text \<open>
  Paths, ids and titles are \<open>string\<close>s. \<open>split_on c s\<close> is \<open>s.split(c)\<close> for a
  one-character separator: it always returns at least one segment.
\<close>

fun split_on :: "char \<Rightarrow> string \<Rightarrow> string list" where
  "split_on c [] = [[]]"
| "split_on c (x # xs) =
     (if x = c then [] # split_on c xs
      else (case split_on c xs of
              [] \<Rightarrow> [[x]]
            | s # ss \<Rightarrow> (x # s) # ss))"

fun join_with :: "string \<Rightarrow> string list \<Rightarrow> string" where
  "join_with sep [] = []"
| "join_with sep [s] = s"
| "join_with sep (s # t # ss) = s @ sep @ join_with sep (t # ss)"

text \<open>
  \<open>norm_segments\<close> is the segment walk of \<open>path.resolve\<close> for an absolute path: empty
  and \<open>.\<close> segments are skipped, \<open>..\<close> removes the last kept segment (and is dropped
  at the root). The accumulator holds the kept segments, last one first.
\<close>

fun norm_segments :: "string list \<Rightarrow> string list \<Rightarrow> string list" where
  "norm_segments acc [] = rev acc"
| "norm_segments acc (s # ss) =
     (if s = [] \<or> s = ''.'' then norm_segments acc ss
      else if s = ''..'' then norm_segments (tl acc) ss
      else norm_segments (s # acc) ss)"

definition isAbsolute :: "string \<Rightarrow> bool" where
  "isAbsolute p \<longleftrightarrow> (case p of [] \<Rightarrow> False | c # _ \<Rightarrow> c = CHR ''/'')"

text \<open>\<open>path.resolve(p)\<close>, with the process working directory \<open>cwd\<close> (an absolute path).\<close>

definition path_resolve :: "string \<Rightarrow> string \<Rightarrow> string" where
  "path_resolve cwd p =
     CHR ''/'' # join_with ''/''
       (norm_segments [] (split_on CHR ''/'' (if isAbsolute p then p else cwd @ ''/'' @ p)))"

section \<open>Session core: the session table (cli-session-manager)\<close>

datatype session_status = Starting | Running | Exited | Errored

record cli_tool_config =
  tool_id :: string
  tool_name :: string
  tool_command :: string
  tool_args :: "string list"
  tool_available :: "bool option"

record create_cli_session_input =
  in_projectId :: string
  in_worktreeId :: string
  in_cwd :: string
  in_tool :: string
  in_title :: "string option"
  in_commandArgs :: "string list option"

text \<open>
  A session record. \<open>s_pty\<close> is the handle of the child process: the position of its
  spawn call in the manager's spawn log. \<open>s_sockets\<close> is the set of attached sockets
  in insertion order.
\<close>

record cli_session =
  s_id :: string
  s_title :: string
  s_projectId :: string
  s_worktreeId :: string
  s_cwd :: string
  s_tool :: string
  s_status :: session_status
  s_createdAt :: int
  s_updatedAt :: int
  s_pty :: nat
  s_buffer :: jsstring
  s_sockets :: "nat list"
  s_lastActivity :: int

record spawn_call =
  sp_command :: string
  sp_args :: "string list"
  sp_cols :: nat
  sp_rows :: nat
  sp_cwd :: string

text \<open>
  The manager: the session table (a \<open>Map\<close>, kept as an association list in insertion
  order), the tool table, and the log of every call made to node-pty's \<open>spawn\<close>.
\<close>

record manager =
  sessions :: "(string \<times> cli_session) list"
  tools :: "(string \<times> cli_tool_config) list"
  spawn_log :: "spawn_call list"

datatype stat_result = StatENOENT | StatFails | IsDirectory | NotDirectory

text \<open>
  What the host answers during one call: the process working directory, \<open>fs.stat\<close>
  (\<open>StatENOENT\<close> and \<open>StatFails\<close> are its two ways of throwing),
  \<open>fs.realpath\<close> (\<open>None\<close> when it throws), \<open>os.homedir()\<close>, \<open>os.tmpdir()\<close>,
  whether node-pty's \<open>spawn\<close> succeeds for a call, and whether \<open>fs.writeFile\<close>
  succeeds.
\<close>

record host =
  h_cwd :: string
  h_stat :: "string \<Rightarrow> stat_result"
  h_realpath :: "string \<Rightarrow> string option"
  h_homedir :: string
  h_tmpdir :: string
  h_spawn_ok :: "spawn_call \<Rightarrow> bool"
  h_write_ok :: bool

datatype session_error =
    TotalLimitReached
  | ProjectLimitReached
  | UnsupportedTool string
  | ToolNotAvailable string
  | CwdRequired
  | FsFailure
  | CwdNotDirectory
  | CwdOutsideSandbox
  | SpawnFailure

definition MAX_SESSIONS_PER_PROJECT :: nat where
  "MAX_SESSIONS_PER_PROJECT = 10"

definition MAX_TOTAL_SESSIONS :: nat where
  "MAX_TOTAL_SESSIONS = 50"

text \<open>The messages of the thrown errors, where the source fixes them.\<close>

fun error_message :: "session_error \<Rightarrow> string" where
  "error_message TotalLimitReached = ''Maximum total sessions (50) reached''"
| "error_message ProjectLimitReached = ''Maximum sessions per project (10) reached''"
| "error_message (UnsupportedTool t) = ''Unsupported CLI tool: '' @ t"
| "error_message (ToolNotAvailable n) = n @ '' is not available on this system''"
| "error_message CwdRequired = ''cwd is required''"
| "error_message CwdNotDirectory = ''cwd must be a directory''"
| "error_message CwdOutsideSandbox = ''cwd must be within the home or temp directory''"
| "error_message FsFailure = []"
| "error_message SpawnFailure = []"

definition appendBuffer :: "cli_session \<Rightarrow> jsstring \<Rightarrow> cli_session" where
  "appendBuffer session chunk =
     (let b = s_buffer session @ chunk
      in session\<lparr>s_buffer := (if length b > BUFFER_LIMIT then trimToSafeStart b else b)\<rparr>)"

definition real_or_self :: "host \<Rightarrow> string \<Rightarrow> string" where
  "real_or_self h p = (case h_realpath h p of None \<Rightarrow> p | Some q \<Rightarrow> q)"

definition within_roots :: "string \<Rightarrow> string \<Rightarrow> string \<Rightarrow> bool" where
  "within_roots realHome realTmp realCwd \<longleftrightarrow>
     realCwd = realHome \<or> prefix (realHome @ ''/'') realCwd
     \<or> realCwd = realTmp \<or> prefix (realTmp @ ''/'') realCwd"

definition resolveCwd :: "host \<Rightarrow> string \<Rightarrow> session_error + string" where
  "resolveCwd h inputPath =
     (if inputPath = [] then Inl CwdRequired
      else
        let normalized = path_resolve (h_cwd h) inputPath in
        case h_stat h normalized of
          StatENOENT \<Rightarrow> Inl FsFailure
        | StatFails \<Rightarrow> Inl FsFailure
        | NotDirectory \<Rightarrow> Inl CwdNotDirectory
        | IsDirectory \<Rightarrow>
            (case h_realpath h normalized of
               None \<Rightarrow> Inl FsFailure
             | Some p \<Rightarrow>
                 let realCwd = path_resolve (h_cwd h) p;
                     realHome = path_resolve (h_cwd h) (real_or_self h (h_homedir h));
                     realTmp = path_resolve (h_cwd h) (real_or_self h (h_tmpdir h))
                 in if \<not> within_roots realHome realTmp realCwd then Inl CwdOutsideSandbox
                    else Inr realCwd))"

text \<open>
  \<open>createSession\<close>. \<open>now\<close> is the clock reading and \<open>new_id\<close> the value of
  \<open>randomUUID()\<close>. The result is the thrown error or the new record, with the manager
  after the call.
\<close>

definition createSession ::
  "host \<Rightarrow> int \<Rightarrow> string \<Rightarrow> create_cli_session_input \<Rightarrow> manager
     \<Rightarrow> (session_error + cli_session) \<times> manager" where
  "createSession h now new_id input m =
     (let totalSessions = length (sessions m) in
      if totalSessions \<ge> MAX_TOTAL_SESSIONS then (Inl TotalLimitReached, m)
      else
        let projectSessions =
              length (filter (\<lambda>s. s_projectId s = in_projectId input) (map snd (sessions m)))
        in
        if projectSessions \<ge> MAX_SESSIONS_PER_PROJECT then (Inl ProjectLimitReached, m)
        else
          case map_of (tools m) (in_tool input) of
            None \<Rightarrow> (Inl (UnsupportedTool (in_tool input)), m)
          | Some toolConfig \<Rightarrow>
              if tool_available toolConfig = Some False
              then (Inl (ToolNotAvailable (tool_name toolConfig)), m)
              else
                case resolveCwd h (in_cwd input) of
                  Inl e \<Rightarrow> (Inl e, m)
                | Inr resolvedCwd \<Rightarrow>
                    let call = \<lparr> sp_command = tool_command toolConfig,
                                 sp_args = tool_args toolConfig
                                   @ (case in_commandArgs input of None \<Rightarrow> [] | Some a \<Rightarrow> a),
                                 sp_cols = 120, sp_rows = 32, sp_cwd = resolvedCwd \<rparr>;
                        m1 = m\<lparr>spawn_log := spawn_log m @ [call]\<rparr>
                    in
                    if \<not> h_spawn_ok h call then (Inl SpawnFailure, m1)
                    else
                      let record = \<lparr> s_id = new_id,
                                     s_title =
                                       (case in_title input of
                                          Some t \<Rightarrow>
                                            if t \<noteq> [] then t
                                            else tool_name toolConfig @ [CHR '' '', CHR 0xB7, CHR '' '']
                                                   @ in_worktreeId input
                                        | None \<Rightarrow>
                                            tool_name toolConfig @ [CHR '' '', CHR 0xB7, CHR '' '']
                                              @ in_worktreeId input),
                                     s_projectId = in_projectId input,
                                     s_worktreeId = in_worktreeId input,
                                     s_cwd = resolvedCwd,
                                     s_tool = tool_id toolConfig,
                                     s_status = Starting,
                                     s_createdAt = now,
                                     s_updatedAt = now,
                                     s_pty = length (spawn_log m),
                                     s_buffer = [],
                                     s_sockets = [],
                                     s_lastActivity = now \<rparr>
                      in (Inr record, m1\<lparr>sessions := AList.update new_id record (sessions m1)\<rparr>))"

text \<open>
  The \<open>onData\<close> handler registered by \<open>createSession\<close> for the session \<open>sid\<close>: it
  stamps the activity time and appends the chunk to the session's buffer. (It also
  sends the chunk to the attached sockets, which changes nothing in the manager.)
\<close>

definition ptyOnData :: "int \<Rightarrow> string \<Rightarrow> jsstring \<Rightarrow> manager \<Rightarrow> manager" where
  "ptyOnData now sid chunk m =
     (case map_of (sessions m) sid of
        None \<Rightarrow> m
      | Some record \<Rightarrow>
          m\<lparr>sessions :=
              AList.update sid (appendBuffer (record\<lparr>s_lastActivity := now\<rparr>) chunk) (sessions m)\<rparr>)"

datatype socket_event =
    SendSnapshot jsstring
  | SendStatus session_status
  | CloseSocket nat string

text \<open>
  \<open>attachWebSocket\<close>: the events delivered to the attaching socket, and the manager
  after the call.
\<close>

definition attachWebSocket :: "string \<Rightarrow> nat \<Rightarrow> manager \<Rightarrow> socket_event list \<times> manager" where
  "attachWebSocket sessionId socket m =
     (case map_of (sessions m) sessionId of
        None \<Rightarrow> ([CloseSocket 4004 ''Session not found''], m)
      | Some session \<Rightarrow>
          let session' = session\<lparr>s_sockets := List.insert socket (s_sockets session)\<rparr>;
              snapshot = trimToSafeStart (s_buffer session)
          in ((if length snapshot > 0 then [SendSnapshot snapshot] else [])
                @ [SendStatus (s_status session)],
              m\<lparr>sessions := AList.update sessionId session' (sessions m)\<rparr>))"

text \<open>The two sandbox roots, as \<open>resolveCwd\<close> computes them.\<close>

definition realHome :: "host \<Rightarrow> string" where
  "realHome h = path_resolve (h_cwd h) (real_or_self h (h_homedir h))"

definition realTmp :: "host \<Rightarrow> string" where
  "realTmp h = path_resolve (h_cwd h) (real_or_self h (h_tmpdir h))"

text \<open>A concrete manager, host and input, used to evaluate the definitions.\<close>

definition tools0 :: "(string \<times> cli_tool_config) list" where
  "tools0 =
     [(''codex'', \<lparr>tool_id = ''codex'', tool_name = ''Codex CLI'', tool_command = ''codex'',
                   tool_args = [], tool_available = None\<rparr>),
      (''claude'', \<lparr>tool_id = ''claude'', tool_name = ''Claude Code'', tool_command = ''claude'',
                    tool_args = [], tool_available = None\<rparr>),
      (''opencode'', \<lparr>tool_id = ''opencode'', tool_name = ''OpenCode'', tool_command = ''opencode'',
                      tool_args = [], tool_available = None\<rparr>)]"

definition example_session :: "string \<Rightarrow> string \<Rightarrow> cli_session" where
  "example_session i p =
     \<lparr> s_id = i, s_title = ''t'', s_projectId = p, s_worktreeId = ''default'',
       s_cwd = ''/home/u/p'', s_tool = ''codex'', s_status = Running, s_createdAt = 0,
       s_updatedAt = 0, s_pty = 0, s_buffer = [], s_sockets = [], s_lastActivity = 0 \<rparr>"

definition example_host :: host where
  "example_host =
     \<lparr> h_cwd = ''/srv'',
       h_stat = (\<lambda>p. if p = ''/etc'' \<or> p = ''/home/u/p'' then IsDirectory else StatFails),
       h_realpath = (\<lambda>p. if p = ''/etc'' \<or> p = ''/home/u/p'' \<or> p = ''/home/u'' \<or> p = ''/tmp''
                            then Some p else None),
       h_homedir = ''/home/u'',
       h_tmpdir = ''/tmp'',
       h_spawn_ok = (\<lambda>_. True),
       h_write_ok = True \<rparr>"

definition example_input :: "string \<Rightarrow> create_cli_session_input" where
  "example_input c =
     \<lparr> in_projectId = ''p1'', in_worktreeId = ''default'', in_cwd = c, in_tool = ''codex'',
       in_title = None, in_commandArgs = None \<rparr>"

section \<open>Token codec (ws-auth)\<close>

text \<open>
  A parsed JSON value. Numbers are kept as integers: the expiry written by the codec is
  a millisecond timestamp.
\<close>

datatype json =
    JNull
  | JBool bool
  | JNumber int
  | JString string
  | JArray "json list"
  | JObject "(string \<times> json) list"

text \<open>
  The Node library functions the codec calls, taken as parameters:
  \<open>hmac_b64url\<close> is \<open>createHmac("sha256", WS_SECRET).update(x).digest("base64url")\<close>,
  \<open>b64url_encode\<close> is \<open>Buffer.from(s).toString("base64url")\<close>,
  \<open>b64url_decode\<close> is \<open>Buffer.from(s, "base64url").toString("utf8")\<close> (it never
  throws), \<open>json_stringify\<close> and \<open>json_parse\<close> are \<open>JSON.stringify\<close> and
  \<open>JSON.parse\<close> (\<open>None\<close> for a thrown \<open>SyntaxError\<close>), and \<open>to_number\<close> is the
  numeric conversion that \<open><\<close> applies to a string, array or object operand
  (\<open>None\<close> for \<open>NaN\<close>).
\<close>

record node_lib =
  hmac_b64url :: "string \<Rightarrow> string"
  b64url_encode :: "string \<Rightarrow> string"
  b64url_decode :: "string \<Rightarrow> string"
  json_stringify :: "json \<Rightarrow> string"
  json_parse :: "string \<Rightarrow> json option"
  to_number :: "json \<Rightarrow> int option"

definition TOKEN_TTL :: int where
  "TOKEN_TTL = 60 * 60 * 1000"

definition session_token :: "string \<Rightarrow> int \<Rightarrow> json" where
  "session_token sessionId exp = JObject [(''sessionId'', JString sessionId), (''exp'', JNumber exp)]"

definition generateSessionToken :: "node_lib \<Rightarrow> int \<Rightarrow> string \<Rightarrow> string" where
  "generateSessionToken L now sessionId =
     (let exp = now + TOKEN_TTL;
          payloadStr = json_stringify L (session_token sessionId exp);
          payloadB64 = b64url_encode L payloadStr;
          signature = hmac_b64url L payloadB64
      in payloadB64 @ ''.'' @ signature)"

text \<open>\<open>payload.exp\<close> on a non-null value: \<open>None\<close> stands for \<open>undefined\<close>.\<close>

fun payload_exp :: "json \<Rightarrow> json option" where
  "payload_exp (JObject kvs) = map_of kvs ''exp''"
| "payload_exp _ = None"

text \<open>\<open>v < now\<close> for the value read from \<open>payload.exp\<close>.\<close>

fun exp_before :: "node_lib \<Rightarrow> json option \<Rightarrow> int \<Rightarrow> bool" where
  "exp_before L None now = False"
| "exp_before L (Some (JNumber n)) now = (n < now)"
| "exp_before L (Some JNull) now = (0 < now)"
| "exp_before L (Some (JBool b)) now = ((if b then 1 else 0) < now)"
| "exp_before L (Some v) now = (case to_number L v of None \<Rightarrow> False | Some n \<Rightarrow> n < now)"

text \<open>
  \<open>verifySessionToken\<close>. The destructuring \<open>[payloadB64, signature] = token.split(".")\<close>
  reads the first two segments; everything the \<open>try\<close> block can throw (a
  \<open>SyntaxError\<close> of the parser, the \<open>TypeError\<close> of \<open>null.exp\<close>) is caught and gives
  \<open>None\<close>, the \<open>null\<close> result.
\<close>

definition verifySessionToken :: "node_lib \<Rightarrow> int \<Rightarrow> string \<Rightarrow> json option" where
  "verifySessionToken L now token =
     (case split_on CHR ''.'' token of
        payloadB64 # signature # _ \<Rightarrow>
          if payloadB64 = [] \<or> signature = [] then None
          else if signature \<noteq> hmac_b64url L payloadB64 then None
          else
            (case json_parse L (b64url_decode L payloadB64) of
               None \<Rightarrow> None
             | Some payload \<Rightarrow>
                 if payload = JNull then None
                 else if exp_before L (payload_exp payload) now then None
                 else Some payload)
      | _ \<Rightarrow> None)"

text \<open>
  The shape of an issued token: exactly two non-empty segments joined by one dot.
\<close>

definition two_segment_token :: "string \<Rightarrow> bool" where
  "two_segment_token token \<longleftrightarrow>
     (case split_on CHR ''.'' token of
        [payloadB64, signature] \<Rightarrow> payloadB64 \<noteq> [] \<and> signature \<noteq> []
      | _ \<Rightarrow> False)"

text \<open>A small library instance, used to evaluate the codec.\<close>

definition example_lib :: node_lib where
  "example_lib =
     \<lparr> hmac_b64url = (\<lambda>s. ''mac'' @ rev s),
       b64url_encode = map (\<lambda>c. if c = CHR ''.'' then CHR ''_'' else c),
       b64url_decode = (\<lambda>s. s),
       json_stringify = (\<lambda>v. case v of
                          JObject [(_, JString s), (_, JNumber n)] \<Rightarrow>
                            if n = 3600005 then ''sid='' @ s @ '';exp=3600005'' else ''other''
                        | _ \<Rightarrow> ''other''),
       json_parse = (\<lambda>s. if s = ''sid=A;exp=3600005'' then Some (session_token ''A'' 3600005)
                          else None),
       to_number = (\<lambda>_. None) \<rparr>"

section \<open>Project registry (project-manager)\<close>

text \<open>
  Paths, ids, names and titles are \<open>string\<close>s over 8-bit characters (the code units
  U+0000 to U+00FF). The character classes below are those of the source's regular
  expressions and of \<open>String.prototype.trim\<close>, \<open>toLowerCase\<close> on that range.
\<close>

definition is_space :: "char \<Rightarrow> bool" where
  "is_space c \<longleftrightarrow> c \<in> set [CHR 0x09, CHR 0x0A, CHR 0x0B, CHR 0x0C, CHR 0x0D, CHR 0x20, CHR 0xA0]"

definition trim :: "string \<Rightarrow> string" where
  "trim s = rev (dropWhile is_space (rev (dropWhile is_space s)))"

definition upper_chars :: string where
  "upper_chars = ''ABCDEFGHIJKLMNOPQRSTUVWXYZ''
     @ [CHR 0xC0, CHR 0xC1, CHR 0xC2, CHR 0xC3, CHR 0xC4, CHR 0xC5, CHR 0xC6, CHR 0xC7,
        CHR 0xC8, CHR 0xC9, CHR 0xCA, CHR 0xCB, CHR 0xCC, CHR 0xCD, CHR 0xCE, CHR 0xCF,
        CHR 0xD0, CHR 0xD1, CHR 0xD2, CHR 0xD3, CHR 0xD4, CHR 0xD5, CHR 0xD6,
        CHR 0xD8, CHR 0xD9, CHR 0xDA, CHR 0xDB, CHR 0xDC, CHR 0xDD, CHR 0xDE]"

definition lower_chars :: string where
  "lower_chars = ''abcdefghijklmnopqrstuvwxyz''
     @ [CHR 0xE0, CHR 0xE1, CHR 0xE2, CHR 0xE3, CHR 0xE4, CHR 0xE5, CHR 0xE6, CHR 0xE7,
        CHR 0xE8, CHR 0xE9, CHR 0xEA, CHR 0xEB, CHR 0xEC, CHR 0xED, CHR 0xEE, CHR 0xEF,
        CHR 0xF0, CHR 0xF1, CHR 0xF2, CHR 0xF3, CHR 0xF4, CHR 0xF5, CHR 0xF6,
        CHR 0xF8, CHR 0xF9, CHR 0xFA, CHR 0xFB, CHR 0xFC, CHR 0xFD, CHR 0xFE]"

definition to_lower :: "char \<Rightarrow> char" where
  "to_lower c = (case map_of (zip upper_chars lower_chars) c of Some d \<Rightarrow> d | None \<Rightarrow> c)"

text \<open>The class \<open>[a-z0-9]\<close>.\<close>

definition is_slug_char :: "char \<Rightarrow> bool" where
  "is_slug_char c \<longleftrightarrow> c \<in> set ''abcdefghijklmnopqrstuvwxyz0123456789''"

text \<open>\<open>.replace(/[^a-z0-9]+/g, "-")\<close>: every maximal run outside the class becomes one dash.\<close>

function replace_runs :: "string \<Rightarrow> string" where
  "replace_runs [] = []"
| "replace_runs (c # cs) =
     (if is_slug_char c then c # replace_runs cs
      else CHR ''-'' # replace_runs (dropWhile (\<lambda>d. \<not> is_slug_char d) cs))"
  by pat_completeness auto
termination
  by (relation "measure length") (auto simp: le_imp_less_Suc length_dropWhile_le)

text \<open>\<open>.replace(/^-+|-+$/g, "")\<close>.\<close>

definition strip_dashes :: "string \<Rightarrow> string" where
  "strip_dashes s =
     rev (dropWhile (\<lambda>c. c = CHR ''-'') (rev (dropWhile (\<lambda>c. c = CHR ''-'') s)))"

definition slugify :: "string \<Rightarrow> string" where
  "slugify v =
     (let s = take 64 (strip_dashes (replace_runs (map to_lower v)))
      in if s = [] then ''worktree'' else s)"

text \<open>\<open>/[\/_]/.test(s)\<close>.\<close>

definition has_separator :: "string \<Rightarrow> bool" where
  "has_separator s \<longleftrightarrow> CHR ''/'' \<in> set s \<or> CHR ''_'' \<in> set s"

text \<open>\<open>.replace(/\/+$/, "")\<close>.\<close>

definition strip_trailing_slashes :: "string \<Rightarrow> string" where
  "strip_trailing_slashes s = rev (dropWhile (\<lambda>c. c = CHR ''/'') (rev s))"

text \<open>\<open>path.basename(p)\<close>: the last segment, trailing separators ignored.\<close>

definition basename :: "string \<Rightarrow> string" where
  "basename p = last (split_on CHR ''/'' (strip_trailing_slashes p))"

definition normalizePath :: "host \<Rightarrow> string \<Rightarrow> string" where
  "normalizePath h v =
     strip_trailing_slashes
       (map (\<lambda>c. if c = CHR 0x5C then CHR ''/'' else c) (path_resolve (h_cwd h) v))"

definition canonicalizePath :: "host \<Rightarrow> string \<Rightarrow> string" where
  "canonicalizePath h v =
     (let normalized = normalizePath h v
      in case h_realpath h normalized of
           Some real \<Rightarrow> normalizePath h real
         | None \<Rightarrow> normalized)"

text \<open>The decimal rendering of a counter in a template string.\<close>

fun show_nat :: "nat \<Rightarrow> string" where
  "show_nat n =
     (if n < 10 then [''0123456789'' ! n]
      else show_nat (n div 10) @ [''0123456789'' ! (n mod 10)])"

declare show_nat.simps [simp del]

record worktree_metadata =
  w_id :: string
  w_path :: string
  w_title :: string

record project_settings =
  st_autoPrompt :: bool
  st_promptCharLimit :: int

datatype project_status = Stopped | RunningProject

text \<open>
  \<open>ProjectInfo\<close>. The optional fields the registry never sets or reads (\<open>gitRoot\<close>,
  \<open>commitHash\<close>, \<open>port\<close>) are left out; \<open>None\<close> is an absent optional field.
\<close>

record project_info =
  p_id :: string
  p_name :: string
  p_path :: string
  p_status :: project_status
  p_lastAccessed :: int
  p_worktrees :: "worktree_metadata list option"
  p_settings :: "project_settings option"

text \<open>
  The registry: the project table (a \<open>Map\<close> from id to record, in insertion order), the
  \<open>loaded\<close> and \<open>dirty\<close> flags, and the persisted store, the content of
  \<open>web-projects.json\<close> (\<open>None\<close> while the file does not exist).
\<close>

record registry =
  projects :: "(string \<times> project_info) list"
  loaded :: bool
  dirty :: bool
  config_file :: "project_info list option"

datatype registry_error =
    PathNotAbsolute string
  | PathDoesNotExist string
  | PathNotDirectory string
  | StatFailure
  | WriteFailure
  | ProjectNotFound string
  | WorktreeNotFound string string
  | CannotRemoveDefault
  | MetadataUnresolved string
  | GitFailure

fun registry_error_message :: "registry_error \<Rightarrow> string" where
  "registry_error_message (PathNotAbsolute p) =
     ''Project path must be absolute: received '' @ [CHR 0x22] @ p @ [CHR 0x22]"
| "registry_error_message (PathDoesNotExist p) = ''Project path does not exist: '' @ p"
| "registry_error_message (PathNotDirectory p) = ''Project path is not a directory: '' @ p"
| "registry_error_message (ProjectNotFound i) = ''Project '' @ i @ '' not found''"
| "registry_error_message (WorktreeNotFound w i) =
     ''Worktree '' @ w @ '' not found for project '' @ i"
| "registry_error_message CannotRemoveDefault = ''Cannot remove default worktree''"
| "registry_error_message (MetadataUnresolved p) = ''Unable to resolve metadata for worktree '' @ p"
| "registry_error_message _ = []"

definition applyDefaultSettings :: "project_settings option \<Rightarrow> project_settings" where
  "applyDefaultSettings settings =
     (let currentLimit = (case settings of None \<Rightarrow> 8000 | Some s \<Rightarrow> st_promptCharLimit s);
          normalizedLimit = min 20000 (max 1000 currentLimit)
      in \<lparr> st_autoPrompt = (case settings of None \<Rightarrow> True | Some s \<Rightarrow> st_autoPrompt s),
           st_promptCharLimit = normalizedLimit \<rparr>)"

text \<open>\<open>update_first P f xs\<close> changes the element that \<open>xs.find(P)\<close> returns.\<close>

fun update_first :: "('a \<Rightarrow> bool) \<Rightarrow> ('a \<Rightarrow> 'a) \<Rightarrow> 'a list \<Rightarrow> 'a list" where
  "update_first P f [] = []"
| "update_first P f (x # xs) = (if P x then f x # xs else x # update_first P f xs)"

definition ensureDefaultWorktree :: "host \<Rightarrow> project_info \<Rightarrow> project_info" where
  "ensureDefaultWorktree h info =
     (let normalizedProjectPath = canonicalizePath h (p_path info);
          worktrees0 = (case p_worktrees info of None \<Rightarrow> [] | Some ws \<Rightarrow> ws);
          worktrees1 =
            (case find (\<lambda>w. w_id w = ''default'') worktrees0 of
               Some existingDefault \<Rightarrow>
                 update_first (\<lambda>w. w_id w = ''default'')
                   (\<lambda>w. w\<lparr>w_path := normalizedProjectPath, w_title := ''default''\<rparr>) worktrees0
             | None \<Rightarrow>
                 worktrees0 @ [\<lparr> w_id = ''default'', w_path = normalizedProjectPath,
                                 w_title = ''default'' \<rparr>]);
          worktrees2 =
            map (\<lambda>w. w\<lparr> w_path := canonicalizePath h
                                      (if w_path w \<noteq> [] then w_path w else normalizedProjectPath),
                         w_title := (if w_id w = ''default'' then ''default''
                                     else if w_title w \<noteq> [] then w_title w else w_id w) \<rparr>)
              worktrees1
      in info\<lparr> p_path := normalizedProjectPath,
                p_worktrees := Some worktrees2,
                p_settings := Some (applyDefaultSettings (p_settings info)) \<rparr>)"

text \<open>
  The search loop of \<open>generateWorktreeId\<close>: the first counter, from \<open>counter\<close> on, whose
  candidate is neither reserved nor \<open>default\<close>.
\<close>

definition candidate_id :: "string \<Rightarrow> nat \<Rightarrow> string" where
  "candidate_id base counter = base @ ''-'' @ show_nat counter"

text \<open>
  Reading a decimal rendering back: \<open>show_nat\<close> is injective, so the search loop below
  passes each candidate once and ends.
\<close>

definition digit_val :: "char \<Rightarrow> nat" where
  "digit_val c = length (takeWhile (\<lambda>d. d \<noteq> c) ''0123456789'')"

definition read_nat :: "string \<Rightarrow> nat" where
  "read_nat s = foldl (\<lambda>a c. 10 * a + digit_val c) 0 s"

lemma digit_val_digit: "k < 10 \<Longrightarrow> digit_val (''0123456789'' ! k) = k"
proof -
  assume "k < 10"
  then consider "k = 0" | "k = 1" | "k = 2" | "k = 3" | "k = 4" | "k = 5" | "k = 6"
    | "k = 7" | "k = 8" | "k = 9" by atomize_elim presburger
  then show ?thesis by cases (simp_all add: digit_val_def)
qed

lemma read_nat_snoc: "read_nat (s @ [c]) = 10 * read_nat s + digit_val c"
  by (simp add: read_nat_def)

lemma read_show_nat: "read_nat (show_nat n) = n"
proof (induction n rule: show_nat.induct)
  case (1 n)
  show ?case
  proof (cases "n < 10")
    case True
    then show ?thesis
      by (subst show_nat.simps) (simp add: read_nat_def digit_val_digit)
  next
    case False
    then have "read_nat (show_nat (n div 10)) = n div 10" using 1 by simp
    with False show ?thesis
      by (subst show_nat.simps) (simp add: read_nat_snoc digit_val_digit)
  qed
qed

lemma show_nat_inj: "show_nat m = show_nat n \<Longrightarrow> m = n"
  by (metis read_show_nat)

lemma candidate_id_inj: "candidate_id base m = candidate_id base n \<Longrightarrow> m = n"
  by (simp add: candidate_id_def show_nat_inj)

lemma finite_taken: "finite {k. candidate_id base k \<in> S}" if "finite S"
proof -
  have "inj (candidate_id base)" by (auto simp: inj_def dest: candidate_id_inj)
  then have "finite (candidate_id base -` S)" using that by (rule finite_vimageI [rotated])
  then show ?thesis by (simp add: vimage_def)
qed

function next_free_id :: "string list \<Rightarrow> string \<Rightarrow> nat \<Rightarrow> string" where
  "next_free_id reserved base counter =
     (let candidate = candidate_id base counter
      in if candidate \<in> set reserved \<or> candidate = ''default''
         then next_free_id reserved base (counter + 1)
         else candidate)"
  by pat_completeness auto
termination
proof (relation "measure (\<lambda>(reserved, base, counter).
          card {k. counter \<le> k \<and> candidate_id base k \<in> insert ''default'' (set reserved)})")
  show "wf (measure (\<lambda>(reserved, base, counter).
          card {k. counter \<le> k \<and> candidate_id base k \<in> insert ''default'' (set reserved)}))"
    by simp
next
  fix reserved :: "string list" and base :: string and counter :: nat and x :: string
  assume x: "x = candidate_id base counter" and bad: "x \<in> set reserved \<or> x = ''default''"
  let ?S = "insert ''default'' (set reserved)"
  let ?A = "{k. counter \<le> k \<and> candidate_id base k \<in> ?S}"
  let ?B = "{k. counter + 1 \<le> k \<and> candidate_id base k \<in> ?S}"
  have fin: "finite ?A"
    using finite_taken [of ?S base] by (rule rev_finite_subset) auto
  have "counter \<in> ?A" using x bad by auto
  moreover have "counter \<notin> ?B" by simp
  moreover have "?B \<subseteq> ?A" by auto
  ultimately have "?B \<subset> ?A" by blast
  then have "card ?B < card ?A" using fin by (rule psubset_card_mono [rotated])
  then show "((reserved, base, counter + 1), (reserved, base, counter))
      \<in> measure (\<lambda>(reserved, base, counter).
          card {k. counter \<le> k \<and> candidate_id base k \<in> insert ''default'' (set reserved)})"
    by simp
qed

declare next_free_id.simps [simp del]

definition saveProjects :: "host \<Rightarrow> registry \<Rightarrow> registry_error + registry" where
  "saveProjects h reg =
     (if \<not> loaded reg then Inr reg
      else if \<not> dirty reg then Inr reg
      else if \<not> h_write_ok h then Inl WriteFailure
      else Inr (reg\<lparr> config_file :=
                        Some (map (\<lambda>info. info\<lparr> p_status := Stopped,
                                                  p_settings := Some (applyDefaultSettings (p_settings info)) \<rparr>)
                                (map snd (projects reg))),
                      dirty := False \<rparr>))"

text \<open>\<open>sha\<close> is \<open>crypto.createHash("sha256").update(x).digest("hex")\<close>.\<close>

definition getGitProjectId :: "host \<Rightarrow> (string \<Rightarrow> string) \<Rightarrow> string \<Rightarrow> string" where
  "getGitProjectId h sha projectPath =
     (let resolvedPath = (if prefix ''/'' projectPath then projectPath
                          else h_cwd h @ ''/'' @ projectPath)
      in take 16 (sha resolvedPath))"

text \<open>
  \<open>addProject\<close>. \<open>now\<close> is the reading of \<open>Date.now()\<close>. The result is the thrown
  error or the returned record, with the registry after the call.
\<close>

definition addProject ::
  "host \<Rightarrow> (string \<Rightarrow> string) \<Rightarrow> int \<Rightarrow> string \<Rightarrow> string option \<Rightarrow> registry
     \<Rightarrow> (registry_error + project_info) \<times> registry" where
  "addProject h sha now projectPath name reg =
     (if \<not> isAbsolute projectPath then (Inl (PathNotAbsolute projectPath), reg)
      else
        let normalizedPath = normalizePath h projectPath in
        case h_stat h normalizedPath of
          StatENOENT \<Rightarrow> (Inl (PathDoesNotExist normalizedPath), reg)
        | StatFails \<Rightarrow> (Inl StatFailure, reg)
        | NotDirectory \<Rightarrow> (Inl (PathNotDirectory normalizedPath), reg)
        | IsDirectory \<Rightarrow>
            let canonicalPath = (case h_realpath h normalizedPath of
                                   Some real \<Rightarrow> normalizePath h real
                                 | None \<Rightarrow> normalizedPath);
                projectId = getGitProjectId h sha canonicalPath
            in
            case map_of (projects reg) projectId of
              Some existing \<Rightarrow>
                let incomingName = map_option trim name;
                    pathChanged = (p_path existing \<noteq> canonicalPath);
                    info1 = (if pathChanged then existing\<lparr>p_path := canonicalPath\<rparr> else existing);
                    nameChanged = (case incomingName of
                                     Some n \<Rightarrow> n \<noteq> [] \<and> p_name info1 \<noteq> n
                                   | None \<Rightarrow> False);
                    info2 = (if nameChanged then info1\<lparr>p_name := the incomingName\<rparr> else info1);
                    updated = (pathChanged \<or> nameChanged);
                    info3 = (if updated then ensureDefaultWorktree h info2 else info2);
                    info4 = info3\<lparr>p_lastAccessed := now\<rparr>;
                    reg1 = reg\<lparr> projects := AList.update projectId info4 (projects reg),
                                dirty := (dirty reg \<or> updated) \<rparr>
                in (case saveProjects h reg1 of
                      Inl e \<Rightarrow> (Inl e, reg1)
                    | Inr reg2 \<Rightarrow> (Inr info4, reg2))
            | None \<Rightarrow>
                let lastSegment = last (split_on CHR ''/'' canonicalPath);
                    fallbackName = (if lastSegment \<noteq> [] then lastSegment else ''Unknown Project'');
                    projectInfo =
                      \<lparr> p_id = projectId,
                        p_name = (case name of
                                    Some n \<Rightarrow> if n \<noteq> [] then n else fallbackName
                                  | None \<Rightarrow> fallbackName),
                        p_path = canonicalPath,
                        p_status = RunningProject,
                        p_lastAccessed = now,
                        p_worktrees = Some [\<lparr> w_id = ''default'', w_path = canonicalPath,
                                               w_title = ''default'' \<rparr>],
                        p_settings = Some (applyDefaultSettings None) \<rparr>;
                    info1 = ensureDefaultWorktree h projectInfo;
                    reg1 = reg\<lparr> projects := AList.update projectId info1 (projects reg),
                                dirty := True \<rparr>
                in (case saveProjects h reg1 of
                      Inl e \<Rightarrow> (Inl e, reg1)
                    | Inr reg2 \<Rightarrow> (Inr info1, reg2)))"

definition getProject :: "registry \<Rightarrow> string \<Rightarrow> project_info option" where
  "getProject reg projectId = map_of (projects reg) projectId"

definition the_worktrees :: "project_info \<Rightarrow> worktree_metadata list" where
  "the_worktrees info = (case p_worktrees info of None \<Rightarrow> [] | Some ws \<Rightarrow> ws)"

definition getWorktrees :: "host \<Rightarrow> string \<Rightarrow> registry \<Rightarrow> worktree_metadata list \<times> registry" where
  "getWorktrees h projectId reg =
     (case map_of (projects reg) projectId of
        None \<Rightarrow> ([], reg)
      | Some info \<Rightarrow>
          let info1 = ensureDefaultWorktree h info
          in (the_worktrees info1, reg\<lparr>projects := AList.update projectId info1 (projects reg)\<rparr>))"

definition findWorktreeById ::
  "host \<Rightarrow> string \<Rightarrow> string \<Rightarrow> registry \<Rightarrow> worktree_metadata option \<times> registry" where
  "findWorktreeById h projectId worktreeId reg =
     (case map_of (projects reg) projectId of
        None \<Rightarrow> (None, reg)
      | Some info \<Rightarrow>
          let info1 = ensureDefaultWorktree h info
          in (find (\<lambda>w. w_id w = worktreeId) (the_worktrees info1),
              reg\<lparr>projects := AList.update projectId info1 (projects reg)\<rparr>))"

definition updateWorktreeTitle ::
  "host \<Rightarrow> string \<Rightarrow> string \<Rightarrow> string \<Rightarrow> registry
     \<Rightarrow> (registry_error + worktree_metadata) \<times> registry" where
  "updateWorktreeTitle h projectId worktreeId title reg =
     (case map_of (projects reg) projectId of
        None \<Rightarrow> (Inl (ProjectNotFound projectId), reg)
      | Some info \<Rightarrow>
          let info1 = ensureDefaultWorktree h info;
              reg1 = reg\<lparr>projects := AList.update projectId info1 (projects reg)\<rparr>
          in case find (\<lambda>w. w_id w = worktreeId) (the_worktrees info1) of
               None \<Rightarrow> (Inl (WorktreeNotFound worktreeId projectId), reg1)
             | Some metadata \<Rightarrow>
                 let info2 = info1\<lparr>p_worktrees :=
                               Some (update_first (\<lambda>w. w_id w = worktreeId)
                                       (\<lambda>w. w\<lparr>w_title := title\<rparr>) (the_worktrees info1))\<rparr>
                 in (Inr (metadata\<lparr>w_title := title\<rparr>),
                     reg\<lparr> projects := AList.update projectId info2 (projects reg),
                          dirty := True \<rparr>))"

definition removeWorktreeMetadata ::
  "host \<Rightarrow> string \<Rightarrow> string \<Rightarrow> registry \<Rightarrow> (registry_error + unit) \<times> registry" where
  "removeWorktreeMetadata h projectId worktreeId reg =
     (case map_of (projects reg) projectId of
        None \<Rightarrow> (Inl (ProjectNotFound projectId), reg)
      | Some info \<Rightarrow>
          let info1 = ensureDefaultWorktree h info;
              reg1 = reg\<lparr>projects := AList.update projectId info1 (projects reg)\<rparr>
          in if worktreeId = ''default'' then (Inl CannotRemoveDefault, reg1)
             else
               let before = length (the_worktrees info1);
                   kept = filter (\<lambda>w. w_id w \<noteq> worktreeId) (the_worktrees info1);
                   info2 = info1\<lparr>p_worktrees := Some kept\<rparr>
               in (Inr (),
                   reg\<lparr> projects := AList.update projectId info2 (projects reg),
                        dirty := (dirty reg \<or> length kept \<noteq> before) \<rparr>))"

definition generateWorktreeId :: "project_info \<Rightarrow> string \<Rightarrow> string" where
  "generateWorktreeId info title =
     (let base = slugify title;
          reserved = map w_id (the_worktrees info)
      in if base \<notin> set reserved \<and> base \<noteq> ''default'' then base
         else next_free_id reserved base 2)"

text \<open>
  The invariant of a registry built by its own operations: keys are distinct, every
  record is stored under its id, and every project has exactly one \<open>default\<close> entry.
\<close>

definition default_count :: "project_info \<Rightarrow> nat" where
  "default_count info = length (filter (\<lambda>w. w_id w = ''default'') (the_worktrees info))"

definition registry_ok :: "registry \<Rightarrow> bool" where
  "registry_ok reg \<longleftrightarrow>
     distinct (map fst (projects reg))
     \<and> (\<forall>(k, info) \<in> set (projects reg). p_id info = k \<and> default_count info = 1)"

text \<open>The record \<open>addProject\<close> stores and returns when it succeeds.\<close>

definition added_info :: "host \<Rightarrow> int \<Rightarrow> string \<Rightarrow> string \<Rightarrow> string option \<Rightarrow> project_info option \<Rightarrow> project_info" where
  "added_info h now projectId canonicalPath name found =
     (case found of
        Some existing \<Rightarrow>
          let incomingName = map_option trim name;
              pathChanged = (p_path existing \<noteq> canonicalPath);
              info1 = (if pathChanged then existing\<lparr>p_path := canonicalPath\<rparr> else existing);
              nameChanged = (case incomingName of
                               Some n \<Rightarrow> n \<noteq> [] \<and> p_name info1 \<noteq> n
                             | None \<Rightarrow> False);
              info2 = (if nameChanged then info1\<lparr>p_name := the incomingName\<rparr> else info1);
              info3 = (if pathChanged \<or> nameChanged then ensureDefaultWorktree h info2 else info2)
          in info3\<lparr>p_lastAccessed := now\<rparr>
      | None \<Rightarrow>
          let lastSegment = last (split_on CHR ''/'' canonicalPath);
              fallbackName = (if lastSegment \<noteq> [] then lastSegment else ''Unknown Project'')
          in ensureDefaultWorktree h
               \<lparr> p_id = projectId,
                 p_name = (case name of
                             Some n \<Rightarrow> if n \<noteq> [] then n else fallbackName
                           | None \<Rightarrow> fallbackName),
                 p_path = canonicalPath,
                 p_status = RunningProject,
                 p_lastAccessed = now,
                 p_worktrees = Some [\<lparr> w_id = ''default'', w_path = canonicalPath,
                                        w_title = ''default'' \<rparr>],
                 p_settings = Some (applyDefaultSettings None) \<rparr>)"

text \<open>
  The title-overwrite rule of \<open>ensureWorktreeMetadata\<close>. \<open>existing\<close> is the matched
  entry, its path already set to the normalized path; \<open>current\<close> and
  \<open>normalizedIncoming\<close> are the trimmed titles.
\<close>

definition incomingLooksSluggy :: "string \<Rightarrow> bool" where
  "incomingLooksSluggy normalizedIncoming \<longleftrightarrow>
     normalizedIncoming = []
     \<or> normalizedIncoming = slugify normalizedIncoming
     \<or> has_separator normalizedIncoming"

definition currentLooksSluggy :: "worktree_metadata \<Rightarrow> string \<Rightarrow> bool" where
  "currentLooksSluggy existing current \<longleftrightarrow>
     current = []
     \<or> current = w_id existing
     \<or> current = w_path existing
     \<or> current = basename (w_path existing)
     \<or> current = (if current \<noteq> [] then slugify current else [])
     \<or> has_separator current"

definition shouldOverwrite :: "worktree_metadata \<Rightarrow> string \<Rightarrow> bool" where
  "shouldOverwrite existing title =
     (let normalizedIncoming = trim title;
          current = trim (w_title existing)
      in current = [] \<or> (currentLooksSluggy existing current \<and> \<not> incomingLooksSluggy normalizedIncoming))"

text \<open>Whether the branch \<open>if (title && existing.title !== title)\<close> overwrites.\<close>

definition overwrites :: "worktree_metadata \<Rightarrow> string option \<Rightarrow> bool" where
  "overwrites existing title =
     (case title of
        None \<Rightarrow> False
      | Some t \<Rightarrow> t \<noteq> [] \<and> w_title existing \<noteq> t \<and> shouldOverwrite existing t)"

definition ensureWorktreeMetadata ::
  "host \<Rightarrow> string \<Rightarrow> string \<Rightarrow> string option \<Rightarrow> registry
     \<Rightarrow> worktree_metadata option \<times> registry" where
  "ensureWorktreeMetadata h projectId worktreePath title reg =
     (case map_of (projects reg) projectId of
        None \<Rightarrow> (None, reg)
      | Some info \<Rightarrow>
          let info1 = ensureDefaultWorktree h info;
              normalizedPath = canonicalizePath h worktreePath;
              matches = (\<lambda>w. canonicalizePath h (w_path w) = normalizedPath)
          in
          case find matches (the_worktrees info1) of
            Some existing \<Rightarrow>
              let pathChanged = (w_path existing \<noteq> normalizedPath);
                  existing1 = existing\<lparr>w_path := normalizedPath\<rparr>;
                  titleChanged = overwrites existing1 title;
                  existing2 = (if titleChanged then existing1\<lparr>w_title := trim (the title)\<rparr>
                               else existing1);
                  info2 = info1\<lparr>p_worktrees :=
                            Some (update_first matches (\<lambda>_. existing2) (the_worktrees info1))\<rparr>
              in (Some existing2,
                  reg\<lparr> projects := AList.update projectId info2 (projects reg),
                       dirty := (dirty reg \<or> pathChanged \<or> titleChanged) \<rparr>)
          | None \<Rightarrow>
              let leaf = basename normalizedPath;
                  worktreeTitle =
                    (case title of
                       Some t \<Rightarrow> if t \<noteq> [] then t else if leaf \<noteq> [] then leaf else ''worktree''
                     | None \<Rightarrow> if leaf \<noteq> [] then leaf else ''worktree'');
                  metadata = \<lparr> w_id = generateWorktreeId info1 worktreeTitle,
                               w_path = normalizedPath,
                               w_title = worktreeTitle \<rparr>;
                  info2 = info1\<lparr>p_worktrees := Some (the_worktrees info1 @ [metadata])\<rparr>
              in (Some metadata,
                  reg\<lparr> projects := AList.update projectId info2 (projects reg),
                       dirty := True \<rparr>))"

text \<open>
  \<open>removeProject\<close>, and then the operations of the registry as one datatype, with the
  registry each leaves behind (whether it returns or throws).
\<close>

definition removeProject :: "host \<Rightarrow> string \<Rightarrow> registry \<Rightarrow> (registry_error + bool) \<times> registry" where
  "removeProject h projectId reg =
     (case map_of (projects reg) projectId of
        None \<Rightarrow> (Inr False, reg)
      | Some info \<Rightarrow>
          let reg1 = reg\<lparr>projects := AList.delete projectId (projects reg), dirty := True\<rparr>
          in (case saveProjects h reg1 of
                Inl e \<Rightarrow> (Inl e, reg1)
              | Inr reg2 \<Rightarrow> (Inr True, reg2)))"

datatype registry_op =
    AddProject string "string option" int
  | RemoveProject string
  | GetWorktrees string
  | FindWorktreeById string string
  | EnsureWorktreeMetadata string string "string option"
  | UpdateWorktreeTitle string string string
  | RemoveWorktreeMetadata string string
  | SaveProjects

fun registry_after :: "host \<Rightarrow> (string \<Rightarrow> string) \<Rightarrow> registry_op \<Rightarrow> registry \<Rightarrow> registry" where
  "registry_after h sha (AddProject p name now) reg = snd (addProject h sha now p name reg)"
| "registry_after h sha (RemoveProject i) reg = snd (removeProject h i reg)"
| "registry_after h sha (GetWorktrees i) reg = snd (getWorktrees h i reg)"
| "registry_after h sha (FindWorktreeById i w) reg = snd (findWorktreeById h i w reg)"
| "registry_after h sha (EnsureWorktreeMetadata i p t) reg = snd (ensureWorktreeMetadata h i p t reg)"
| "registry_after h sha (UpdateWorktreeTitle i w t) reg = snd (updateWorktreeTitle h i w t reg)"
| "registry_after h sha (RemoveWorktreeMetadata i w) reg = snd (removeWorktreeMetadata h i w reg)"
| "registry_after h sha SaveProjects reg = (case saveProjects h reg of Inl e \<Rightarrow> reg | Inr reg' \<Rightarrow> reg')"

section \<open>Worktree reconciler (integrated-project-routes)\<close>

text \<open>
  An entry of git's worktree listing as \<open>parseWorktreeOutput\<close> returns it, and an
  entry of the response.
\<close>

record parsed_worktree =
  pw_path :: string
  pw_branch :: "string option"
  pw_head :: "string option"
  pw_isPrimary :: bool
  pw_isDetached :: bool
  pw_isLocked :: bool
  pw_lockReason :: "string option"
  pw_relativePath :: string

record worktree_response =
  r_id :: string
  r_title :: string
  r_path :: string
  r_relativePath :: string
  r_branch :: "string option"
  r_head :: "string option"
  r_isPrimary :: bool
  r_isDetached :: bool
  r_isLocked :: bool
  r_lockReason :: "string option"

text \<open>
  A metadata candidate: the record, its normalized path and its real path (\<open>None\<close>
  when \<open>realpath\<close> throws).
\<close>

type_synonym candidate = "worktree_metadata \<times> string \<times> string option"

definition make_candidate :: "host \<Rightarrow> worktree_metadata \<Rightarrow> candidate" where
  "make_candidate h meta =
     (meta, normalizePath h (w_path meta), map_option (normalizePath h) (h_realpath h (w_path meta)))"

definition findMetadataForEntry :: "host \<Rightarrow> candidate list \<Rightarrow> string \<Rightarrow> worktree_metadata option" where
  "findMetadataForEntry h candidates entryPath =
     (let normalizedEntry = normalizePath h entryPath in
      case find (\<lambda>(meta, normalizedPath, realPath). normalizedPath = normalizedEntry) candidates of
        Some c \<Rightarrow> Some (fst c)
      | None \<Rightarrow>
          let entryReal = map_option (normalizePath h) (h_realpath h entryPath);
              byReal = (case entryReal of
                          None \<Rightarrow> None
                        | Some er \<Rightarrow>
                            if er = [] then None
                            else find (\<lambda>(meta, normalizedPath, realPath).
                                          normalizedPath = er \<or> realPath = Some er) candidates)
          in case byReal of
               Some c \<Rightarrow> Some (fst c)
             | None \<Rightarrow>
                 (case find (\<lambda>(meta, normalizedPath, realPath).
                               (case realPath of
                                  None \<Rightarrow> False
                                | Some rp \<Rightarrow> rp \<noteq> [] \<and> rp = normalizedEntry)) candidates of
                    Some c \<Rightarrow> Some (fst c)
                  | None \<Rightarrow> None))"

text \<open>\<open>entry.branch || entry.relativePath || entry.path\<close>.\<close>

definition suggested_title :: "parsed_worktree \<Rightarrow> string" where
  "suggested_title entry =
     (case pw_branch entry of
        Some b \<Rightarrow> if b \<noteq> [] then b
                  else if pw_relativePath entry \<noteq> [] then pw_relativePath entry else pw_path entry
      | None \<Rightarrow> if pw_relativePath entry \<noteq> [] then pw_relativePath entry else pw_path entry)"

definition effectiveIsPrimary :: "host \<Rightarrow> string \<Rightarrow> parsed_worktree \<Rightarrow> bool" where
  "effectiveIsPrimary h projectPath entry =
     (case h_realpath h (pw_path entry) of
        None \<Rightarrow> pw_isPrimary entry
      | Some re \<Rightarrow>
          let realEntry = normalizePath h re;
              realProject = (case h_realpath h projectPath of
                               Some rp \<Rightarrow> normalizePath h rp
                             | None \<Rightarrow> normalizePath h projectPath)
          in if realEntry = realProject then True else pw_isPrimary entry)"

text \<open>
  One turn of the loop over the live entries. The state is the registry, the candidate
  list and the responses built so far; a thrown error comes with the registry as it is
  at the throw. A metadata record returned by
  \<open>ensureWorktreeMetadata\<close> is a new object, so \<open>registerMetadata\<close> appends a candidate
  for it; for a record found among the candidates it recomputes the same two paths.
\<close>

definition reconcile_entry ::
  "host \<Rightarrow> string \<Rightarrow> parsed_worktree \<Rightarrow> registry \<times> candidate list \<times> worktree_response list
     \<Rightarrow> (registry_error \<times> registry) + (registry \<times> candidate list \<times> worktree_response list)" where
  "reconcile_entry h projectId entry st =
     (case st of (reg, candidates, responses) \<Rightarrow>
        let found = findMetadataForEntry h candidates (pw_path entry);
            step = (case found of
                      Some meta \<Rightarrow> (Some meta, reg, candidates)
                    | None \<Rightarrow>
                        (case ensureWorktreeMetadata h projectId (pw_path entry)
                                (Some (suggested_title entry)) reg of
                           (None, reg1) \<Rightarrow> (None, reg1, candidates)
                         | (Some meta, reg1) \<Rightarrow>
                             (Some meta, reg1, candidates @ [make_candidate h meta])))
        in case step of
             (None, reg1, candidates1) \<Rightarrow> Inl (MetadataUnresolved (pw_path entry), reg1)
           | (Some metadata, reg1, candidates1) \<Rightarrow>
               let projectPath = (case map_of (projects reg1) projectId of
                                    Some info \<Rightarrow> p_path info
                                  | None \<Rightarrow> []);
                   response = \<lparr> r_id = w_id metadata,
                                r_title = w_title metadata,
                                r_path = w_path metadata,
                                r_relativePath = pw_relativePath entry,
                                r_branch = pw_branch entry,
                                r_head = pw_head entry,
                                r_isPrimary = effectiveIsPrimary h projectPath entry,
                                r_isDetached = pw_isDetached entry,
                                r_isLocked = pw_isLocked entry,
                                r_lockReason = pw_lockReason entry \<rparr>
               in Inr (reg1, candidates1, responses @ [response]))"

fun reconcile_entries ::
  "host \<Rightarrow> string \<Rightarrow> parsed_worktree list \<Rightarrow> registry \<times> candidate list \<times> worktree_response list
     \<Rightarrow> (registry_error \<times> registry) + (registry \<times> candidate list \<times> worktree_response list)" where
  "reconcile_entries h projectId [] st = Inr st"
| "reconcile_entries h projectId (entry # rest) st =
     (case reconcile_entry h projectId entry st of
        Inl e \<Rightarrow> Inl e
      | Inr st1 \<Rightarrow> reconcile_entries h projectId rest st1)"

text \<open>
  The orphan cleanup: every record of the listing's metadata snapshot, other than
  \<open>default\<close>, whose normalized path is not the path of a live entry is removed; an
  error thrown by the removal is caught.
\<close>

fun cleanup_orphans ::
  "host \<Rightarrow> string \<Rightarrow> string list \<Rightarrow> worktree_metadata list \<Rightarrow> registry \<Rightarrow> registry" where
  "cleanup_orphans h projectId presentPaths [] reg = reg"
| "cleanup_orphans h projectId presentPaths (meta # rest) reg =
     (if w_id meta = ''default'' then cleanup_orphans h projectId presentPaths rest reg
      else if normalizePath h (w_path meta) \<notin> set presentPaths
      then cleanup_orphans h projectId presentPaths rest
             (snd (removeWorktreeMetadata h projectId (w_id meta) reg))
      else cleanup_orphans h projectId presentPaths rest reg)"

text \<open>
  \<open>buildWorktreeResponses\<close>. \<open>listing\<close> is what \<open>parseWorktreeOutput\<close> returns for
  the final \<open>git worktree list --porcelain\<close> of the run (prunable entries already
  left out), or \<open>None\<close> when git fails.
\<close>

definition buildWorktreeResponses ::
  "host \<Rightarrow> parsed_worktree list option \<Rightarrow> string \<Rightarrow> registry
     \<Rightarrow> (registry_error + worktree_response list) \<times> registry" where
  "buildWorktreeResponses h listing projectId reg =
     (case getProject reg projectId of
        None \<Rightarrow> (Inl (ProjectNotFound projectId), reg)
      | Some project \<Rightarrow>
          (case listing of
             None \<Rightarrow> (Inl GitFailure, reg)
           | Some parsed0 \<Rightarrow>
               let parsed = filter (\<lambda>entry. h_stat h (pw_path entry) = IsDirectory) parsed0;
                   (metadataList, reg1) = getWorktrees h projectId reg;
                   metadataCandidates = map (make_candidate h) metadataList
               in case reconcile_entries h projectId parsed (reg1, metadataCandidates, []) of
                    Inl (e, reg2) \<Rightarrow> (Inl e, reg2)
                  | Inr (reg2, candidates, responses) \<Rightarrow>
                      let reg3 = cleanup_orphans h projectId (map pw_path parsed) metadataList reg2
                      in (case saveProjects h reg3 of
                            Inl e \<Rightarrow> (Inl e, reg3)
                          | Inr reg4 \<Rightarrow> (Inr responses, reg4))))"

datatype http_response = HttpSuccess | HttpError nat string

text \<open>
  The handler of \<open>DELETE /api/projects/:id/worktrees/:worktreeId\<close>. \<open>git_remove\<close> says
  whether \<open>git worktree remove\<close> succeeds for an argument list (when it fails the
  response carries git's own message, written here as the handler's fallback text);
  \<open>listing\<close> is the listing the following reconciliation sees.
\<close>

definition deleteWorktreeRoute ::
  "host \<Rightarrow> (string list \<Rightarrow> bool) \<Rightarrow> parsed_worktree list option \<Rightarrow> string \<Rightarrow> string
     \<Rightarrow> bool option \<Rightarrow> registry \<Rightarrow> http_response \<times> registry" where
  "deleteWorktreeRoute h git_remove listing projectId worktreeId force reg =
     (case getProject reg projectId of
        None \<Rightarrow> (HttpError 404 ''Project not found'', reg)
      | Some project \<Rightarrow>
          (case findWorktreeById h projectId worktreeId reg of
             (None, reg1) \<Rightarrow> (HttpError 404 ''Worktree not found'', reg1)
           | (Some metadata, reg1) \<Rightarrow>
               if w_id metadata = ''default''
               then (HttpError 400 ''Cannot remove default worktree'', reg1)
               else
                 let args = [''worktree'', ''remove'']
                            @ (if force = Some True then [''--force''] else [])
                            @ [w_path metadata]
                 in if \<not> git_remove args then (HttpError 400 ''Failed to remove worktree'', reg1)
                    else
                      (case removeWorktreeMetadata h projectId (w_id metadata) reg1 of
                         (Inl e, reg2) \<Rightarrow> (HttpError 400 (registry_error_message e), reg2)
                       | (Inr u, reg2) \<Rightarrow>
                           (case saveProjects h reg2 of
                              Inl e \<Rightarrow> (HttpError 400 (registry_error_message e), reg2)
                            | Inr reg3 \<Rightarrow>
                                (case buildWorktreeResponses h listing projectId reg3 of
                                   (Inl e, reg4) \<Rightarrow> (HttpError 400 (registry_error_message e), reg4)
                                 | (Inr rs, reg4) \<Rightarrow> (HttpSuccess, reg4))))))"

text \<open>A concrete registry and host, used to evaluate the registry and the reconciler.\<close>

definition example_registry :: "string \<Rightarrow> string \<Rightarrow> registry" where
  "example_registry wid wtitle =
     \<lparr> projects =
         [(''p1'', \<lparr> p_id = ''p1'', p_name = ''repo'', p_path = ''/home/u/repo'',
                     p_status = RunningProject, p_lastAccessed = 0,
                     p_worktrees = Some [\<lparr> w_id = ''default'', w_path = ''/home/u/repo'',
                                            w_title = ''default'' \<rparr>,
                                         \<lparr> w_id = wid, w_path = ''/home/u/real/wt'',
                                            w_title = wtitle \<rparr>],
                     p_settings = None \<rparr>)],
       loaded = True, dirty = False, config_file = None \<rparr>"

definition registry_host :: host where
  "registry_host =
     \<lparr> h_cwd = ''/srv'',
       h_stat = (\<lambda>p. if p \<in> set [''/home/u/repo'', ''/home/u/real/wt'', ''/home/u/link/wt'']
                        then IsDirectory else StatENOENT),
       h_realpath = (\<lambda>p. if p = ''/home/u/link/wt'' then Some ''/home/u/real/wt''
                            else if p \<in> set [''/home/u/repo'', ''/home/u/real/wt''] then Some p
                            else None),
       h_homedir = ''/home/u'',
       h_tmpdir = ''/tmp'',
       h_spawn_ok = (\<lambda>_. True),
       h_write_ok = True \<rparr>"

definition empty_registry :: registry where
  "empty_registry = \<lparr> projects = [], loaded = True, dirty = False, config_file = None \<rparr>"

definition repo_info :: "string \<Rightarrow> int \<Rightarrow> project_status \<Rightarrow> project_info" where
  "repo_info name t st =
     \<lparr> p_id = ''/home/u/repo'', p_name = name, p_path = ''/home/u/repo'', p_status = st,
       p_lastAccessed = t,
       p_worktrees = Some [\<lparr> w_id = ''default'', w_path = ''/home/u/repo'', w_title = ''default'' \<rparr>],
       p_settings = Some \<lparr> st_autoPrompt = True, st_promptCharLimit = 8000 \<rparr> \<rparr>"

definition repo_registry :: "string \<Rightarrow> int \<Rightarrow> registry" where
  "repo_registry name t =
     \<lparr> projects = [(''/home/u/repo'', repo_info name t RunningProject)],
       loaded = True, dirty = False, config_file = Some [repo_info name t Stopped] \<rparr>"

definition example_listing :: "parsed_worktree list" where
  "example_listing =
     [\<lparr> pw_path = ''/home/u/repo'', pw_branch = Some ''main'', pw_head = Some ''abc'',
         pw_isPrimary = True, pw_isDetached = False, pw_isLocked = False,
         pw_lockReason = None, pw_relativePath = [] \<rparr>,
      \<lparr> pw_path = ''/home/u/link/wt'', pw_branch = Some ''feat'', pw_head = Some ''def'',
         pw_isPrimary = False, pw_isDetached = False, pw_isLocked = False,
         pw_lockReason = None, pw_relativePath = ''../link/wt'' \<rparr>]"

section \<open>Properties of the session core\<close>

lemma index_from_None: "index_from x ys k = None \<longleftrightarrow> x \<notin> set ys"
  by (induction ys arbitrary: k) auto

lemma index_from_Some:
  "index_from x ys k = Some i \<longleftrightarrow>
     (\<exists>d. i = k + d \<and> d < length ys \<and> ys ! d = x \<and> (\<forall>j < d. ys ! j \<noteq> x))"
proof (induction ys arbitrary: k)
  case Nil
  show ?case by simp
next
  case (Cons y ys)
  show ?case
  proof (cases "y = x")
    case True
    have "(\<exists>d. i = k + d \<and> d < length (y # ys) \<and> (y # ys) ! d = x \<and> (\<forall>j < d. (y # ys) ! j \<noteq> x)) \<longleftrightarrow> i = k"
    proof
      assume "\<exists>d. i = k + d \<and> d < length (y # ys) \<and> (y # ys) ! d = x \<and> (\<forall>j < d. (y # ys) ! j \<noteq> x)"
      then obtain d where d: "i = k + d" "\<forall>j < d. (y # ys) ! j \<noteq> x" by blast
      have "d = 0"
      proof (rule ccontr)
        assume "d \<noteq> 0"
        then have "(y # ys) ! 0 \<noteq> x" using d(2) by blast
        with True show False by simp
      qed
      with d show "i = k" by simp
    next
      assume "i = k"
      with True show "\<exists>d. i = k + d \<and> d < length (y # ys) \<and> (y # ys) ! d = x \<and> (\<forall>j < d. (y # ys) ! j \<noteq> x)"
        by (intro exI [of _ 0]) simp
    qed
    with True show ?thesis by auto
  next
    case False
    have "(\<exists>d. i = Suc k + d \<and> d < length ys \<and> ys ! d = x \<and> (\<forall>j < d. ys ! j \<noteq> x))
        \<longleftrightarrow> (\<exists>d. i = k + d \<and> d < length (y # ys) \<and> (y # ys) ! d = x \<and> (\<forall>j < d. (y # ys) ! j \<noteq> x))"
      (is "?L \<longleftrightarrow> ?R")
    proof
      assume ?L
      then obtain d where d: "i = Suc k + d" "d < length ys" "ys ! d = x" "\<forall>j < d. ys ! j \<noteq> x"
        by blast
      have "\<forall>j < Suc d. (y # ys) ! j \<noteq> x"
        using d(4) False by (auto simp: nth_Cons split: nat.splits)
      with d show ?R by (intro exI [of _ "Suc d"]) simp
    next
      assume ?R
      then obtain d where d: "i = k + d" "d < length (y # ys)" "(y # ys) ! d = x"
        "\<forall>j < d. (y # ys) ! j \<noteq> x" by blast
      then obtain e where e: "d = Suc e" using False by (cases d) auto
      have "\<forall>j < e. ys ! j \<noteq> x"
      proof (intro allI impI)
        fix j assume "j < e"
        then have "(y # ys) ! Suc j \<noteq> x" using d(4) e by auto
        then show "ys ! j \<noteq> x" by simp
      qed
      with d e show ?L by (intro exI [of _ e]) simp
    qed
    with False Cons.IH [of "Suc k"] show ?thesis by simp
  qed
qed

lemma indexOf_None: "indexOf buf x c = None \<longleftrightarrow> absent_from buf x c"
proof -
  have "x \<notin> set (drop c buf) \<longleftrightarrow> (\<forall>j \<in> {c..<length buf}. buf ! j \<noteq> x)"
  proof
    assume a: "x \<notin> set (drop c buf)"
    show "\<forall>j \<in> {c..<length buf}. buf ! j \<noteq> x"
    proof
      fix j assume j: "j \<in> {c..<length buf}"
      then have "drop c buf ! (j - c) = buf ! j" by simp
      moreover have "j - c < length (drop c buf)" using j by auto
      ultimately show "buf ! j \<noteq> x" using a by (metis nth_mem)
    qed
  next
    assume a: "\<forall>j \<in> {c..<length buf}. buf ! j \<noteq> x"
    show "x \<notin> set (drop c buf)"
    proof
      assume "x \<in> set (drop c buf)"
      then obtain d where d: "d < length (drop c buf)" "drop c buf ! d = x"
        by (auto simp: in_set_conv_nth)
      then have "c + d \<in> {c..<length buf}" "buf ! (c + d) = x" by auto
      with a show False by blast
    qed
  qed
  then show ?thesis by (simp add: indexOf_def index_from_None absent_from_def)
qed

lemma indexOf_Some: "indexOf buf x c = Some i \<longleftrightarrow> first_at buf x c i"
proof -
  have "(\<exists>d. i = c + d \<and> d < length (drop c buf) \<and> drop c buf ! d = x
          \<and> (\<forall>j < d. drop c buf ! j \<noteq> x))
      \<longleftrightarrow> (c \<le> i \<and> i < length buf \<and> buf ! i = x \<and> (\<forall>j \<in> {c..<i}. buf ! j \<noteq> x))"
    (is "?L \<longleftrightarrow> ?R")
  proof
    assume ?L
    then obtain d where d: "i = c + d" "d < length (drop c buf)" "drop c buf ! d = x"
      "\<forall>j < d. drop c buf ! j \<noteq> x" by blast
    then have i: "c \<le> i" "i < length buf" "buf ! i = x" by auto
    have "\<forall>j \<in> {c..<i}. buf ! j \<noteq> x"
    proof
      fix j assume j: "j \<in> {c..<i}"
      then have "j - c < d" using d(1) by auto
      then have "drop c buf ! (j - c) \<noteq> x" using d(4) by blast
      then show "buf ! j \<noteq> x" using j i by simp
    qed
    with i show ?R by simp
  next
    assume R: ?R
    have "\<forall>j < i - c. drop c buf ! j \<noteq> x"
    proof (intro allI impI)
      fix j assume jl: "j < i - c"
      then have "c + j \<in> {c..<i}" by auto
      then have "buf ! (c + j) \<noteq> x" using R by blast
      then show "drop c buf ! j \<noteq> x" using R jl by simp
    qed
    moreover have "i - c < length (drop c buf)" using R by auto
    moreover have "drop c buf ! (i - c) = x" using R by simp
    ultimately show ?L using R by (intro exI [of _ "i - c"]) simp
  qed
  then show ?thesis by (simp add: indexOf_def index_from_Some first_at_def)
qed

lemma trimToSafeStart_length: "length (trimToSafeStart buf) \<le> BUFFER_LIMIT"
proof (cases "length buf \<le> BUFFER_LIMIT")
  case True
  then show ?thesis by (simp add: trimToSafeStart_def)
next
  case False
  let ?c = "length buf - BUFFER_LIMIT"
  have c: "length buf - ?c = BUFFER_LIMIT" using False by simp
  show ?thesis
  proof (cases "indexOf buf ESC ?c")
    case (Some i)
    then have "?c \<le> i" by (simp add: indexOf_Some first_at_def)
    then have "length buf - i \<le> BUFFER_LIMIT" using c by linarith
    with False Some show ?thesis by (simp add: trimToSafeStart_def)
  next
    case None
    note noEsc = None
    show ?thesis
    proof (cases "indexOf buf NL ?c")
      case (Some i)
      then have "?c \<le> i" by (simp add: indexOf_Some first_at_def)
      then have "length buf - Suc i \<le> BUFFER_LIMIT" using c by linarith
      with False Some noEsc show ?thesis by (simp add: trimToSafeStart_def)
    next
      case None
      note noNl = None
      show ?thesis
      proof (cases "indexOf buf CR ?c")
        case (Some i)
        then have "?c \<le> i" by (simp add: indexOf_Some first_at_def)
        then have "length buf - Suc i \<le> BUFFER_LIMIT" using c by linarith
        with False Some noEsc noNl show ?thesis by (simp add: trimToSafeStart_def)
      next
        case None
        with False noEsc noNl c show ?thesis by (simp add: trimToSafeStart_def)
      qed
    qed
  qed
qed

text \<open>
  C1. For a buffer longer than the 64 KiB ceiling, with cutoff \<open>length buf - 65536\<close>, the
  new start is chosen in this order: the first escape unit at or after the cutoff; else
  the position just after the first newline at or after the cutoff; else the position
  just after the first carriage return at or after the cutoff; else exactly the cutoff.
  Consequently, when an escape unit occurs at or after the cutoff, the trimmed buffer is
  a non-empty suffix whose first unit is an escape introducer, or the unit following a
  newline, or the unit following a carriage return.
\<close>

theorem trim_point_selection_order:
  assumes long: "BUFFER_LIMIT < length buf"
  shows "(first_at buf ESC (length buf - BUFFER_LIMIT) i \<longrightarrow> trimToSafeStart buf = drop i buf)
    \<and> (absent_from buf ESC (length buf - BUFFER_LIMIT) \<and> first_at buf NL (length buf - BUFFER_LIMIT) i
          \<longrightarrow> trimToSafeStart buf = drop (i + 1) buf)
    \<and> (absent_from buf ESC (length buf - BUFFER_LIMIT) \<and> absent_from buf NL (length buf - BUFFER_LIMIT)
          \<and> first_at buf CR (length buf - BUFFER_LIMIT) i
          \<longrightarrow> trimToSafeStart buf = drop (i + 1) buf)
    \<and> (absent_from buf ESC (length buf - BUFFER_LIMIT) \<and> absent_from buf NL (length buf - BUFFER_LIMIT)
          \<and> absent_from buf CR (length buf - BUFFER_LIMIT)
          \<longrightarrow> trimToSafeStart buf = drop (length buf - BUFFER_LIMIT) buf)
    \<and> ((\<exists>e \<in> {length buf - BUFFER_LIMIT ..< length buf}. buf ! e = ESC) \<longrightarrow>
          (\<exists>k < length buf. trimToSafeStart buf = drop k buf \<and> trimToSafeStart buf \<noteq> [] \<and>
              (hd (trimToSafeStart buf) = ESC
               \<or> (0 < k \<and> buf ! (k - 1) = NL)
               \<or> (0 < k \<and> buf ! (k - 1) = CR))))"
proof -
  let ?c = "length buf - BUFFER_LIMIT"
  have nle: "\<not> length buf \<le> BUFFER_LIMIT" using long by simp
  have 1: "first_at buf ESC ?c i \<longrightarrow> trimToSafeStart buf = drop i buf"
    using nle by (simp add: trimToSafeStart_def indexOf_Some [symmetric])
  have 2: "absent_from buf ESC ?c \<and> first_at buf NL ?c i \<longrightarrow> trimToSafeStart buf = drop (i + 1) buf"
    using nle by (simp add: trimToSafeStart_def indexOf_Some [symmetric] indexOf_None [symmetric])
  have 3: "absent_from buf ESC ?c \<and> absent_from buf NL ?c \<and> first_at buf CR ?c i
      \<longrightarrow> trimToSafeStart buf = drop (i + 1) buf"
    using nle by (simp add: trimToSafeStart_def indexOf_Some [symmetric] indexOf_None [symmetric])
  have 4: "absent_from buf ESC ?c \<and> absent_from buf NL ?c \<and> absent_from buf CR ?c
      \<longrightarrow> trimToSafeStart buf = drop ?c buf"
    using nle by (simp add: trimToSafeStart_def indexOf_None [symmetric])
  have 5: "(\<exists>e \<in> {?c ..< length buf}. buf ! e = ESC) \<longrightarrow>
          (\<exists>k < length buf. trimToSafeStart buf = drop k buf \<and> trimToSafeStart buf \<noteq> [] \<and>
              (hd (trimToSafeStart buf) = ESC
               \<or> (0 < k \<and> buf ! (k - 1) = NL)
               \<or> (0 < k \<and> buf ! (k - 1) = CR)))"
  proof
    assume "\<exists>e \<in> {?c ..< length buf}. buf ! e = ESC"
    then have "\<not> absent_from buf ESC ?c" by (auto simp: absent_from_def)
    then obtain k where k: "indexOf buf ESC ?c = Some k"
      by (cases "indexOf buf ESC ?c") (auto simp: indexOf_None)
    then have f: "k < length buf" "buf ! k = ESC" by (auto simp: indexOf_Some first_at_def)
    have t: "trimToSafeStart buf = drop k buf" using nle k by (simp add: trimToSafeStart_def)
    have "drop k buf \<noteq> []" "hd (drop k buf) = ESC" using f by (auto simp: hd_drop_conv_nth)
    with t f show "\<exists>k < length buf. trimToSafeStart buf = drop k buf \<and> trimToSafeStart buf \<noteq> [] \<and>
              (hd (trimToSafeStart buf) = ESC
               \<or> (0 < k \<and> buf ! (k - 1) = NL)
               \<or> (0 < k \<and> buf ! (k - 1) = CR))"
      by (intro exI [of _ k]) simp
  qed
  from 1 2 3 4 5 show ?thesis by blast
qed

theorem trim_point_selection_order_witness:
  "BUFFER_LIMIT < length ((0x61 :: 16 word) # ESC # replicate 65535 0x61)
   \<and> first_at ((0x61 :: 16 word) # ESC # replicate 65535 0x61) ESC
        (length ((0x61 :: 16 word) # ESC # replicate 65535 0x61) - BUFFER_LIMIT) 1
   \<and> trimToSafeStart ((0x61 :: 16 word) # ESC # replicate 65535 0x61) = ESC # replicate 65535 0x61"
proof -
  have l: "BUFFER_LIMIT < length ((0x61 :: 16 word) # ESC # replicate 65535 0x61)"
    by (simp add: BUFFER_LIMIT_def)
  have f: "first_at ((0x61 :: 16 word) # ESC # replicate 65535 0x61) ESC
        (length ((0x61 :: 16 word) # ESC # replicate 65535 0x61) - BUFFER_LIMIT) 1"
    by (simp add: BUFFER_LIMIT_def first_at_def)
  from trim_point_selection_order [OF l, of 1] f show ?thesis
    using l by simp
qed

text \<open>
  C4. When the table already holds 50 sessions (the global ceiling) or the project
  already has 10 sessions (the per-project ceiling), \<open>createSession\<close> throws a capacity
  error and leaves the manager as it was: the session table holds exactly the same
  sessions and no call to spawn has been made.
\<close>

theorem createSession_capacity:
  assumes "MAX_TOTAL_SESSIONS \<le> length (sessions m)
           \<or> MAX_SESSIONS_PER_PROJECT
                \<le> length (filter (\<lambda>s. s_projectId s = in_projectId input) (map snd (sessions m)))"
  shows "MAX_SESSIONS_PER_PROJECT = 10 \<and> MAX_TOTAL_SESSIONS = 50
         \<and> (\<exists>e. createSession h now new_id input m = (Inl e, m)
                 \<and> (e = TotalLimitReached \<or> e = ProjectLimitReached))"
  using assms by (auto simp: createSession_def Let_def MAX_SESSIONS_PER_PROJECT_def MAX_TOTAL_SESSIONS_def)

theorem createSession_capacity_witness:
  "createSession example_host 7 ''new''
     (example_input ''/home/u/p'')
     \<lparr>sessions = map (\<lambda>i. (i, example_session i ''p1''))
                   [''a'', ''b'', ''c'', ''d'', ''e'', ''f'', ''g'', ''h'', ''i'', ''j''],
      tools = tools0, spawn_log = []\<rparr>
   = (Inl ProjectLimitReached,
      \<lparr>sessions = map (\<lambda>i. (i, example_session i ''p1''))
                   [''a'', ''b'', ''c'', ''d'', ''e'', ''f'', ''g'', ''h'', ''i'', ''j''],
       tools = tools0, spawn_log = []\<rparr>)"
  using createSession_capacity [of
     "\<lparr>sessions = map (\<lambda>i. (i, example_session i ''p1''))
                   [''a'', ''b'', ''c'', ''d'', ''e'', ''f'', ''g'', ''h'', ''i'', ''j''],
       tools = tools0, spawn_log = []\<rparr>" "example_input ''/home/u/p''" example_host 7 "''new''"]
  by (simp add: example_input_def example_session_def MAX_SESSIONS_PER_PROJECT_def
        MAX_TOTAL_SESSIONS_def createSession_def)

text \<open>
  C3, as amended. When the real path of the working directory lies outside the home and
  temp trees, \<open>createSession\<close> throws, makes no call to spawn and adds no session
  record. The error thrown is that of the first check that fails, in the order of the
  code: the global ceiling, the per-project ceiling, the unknown tool, the tool marked
  unavailable, the empty path, the failure of \<open>stat\<close>, the path that is not a
  directory, and last the sandbox violation. So the error is the sandbox violation
  exactly when every earlier check passes.
\<close>

theorem createSession_outside_sandbox:
  assumes real: "h_realpath h (path_resolve (h_cwd h) (in_cwd input)) = Some p"
    and out: "\<not> within_roots (realHome h) (realTmp h) (path_resolve (h_cwd h) p)"
  shows "createSession h now new_id input m =
           (Inl (if MAX_TOTAL_SESSIONS \<le> length (sessions m) then TotalLimitReached
                 else if MAX_SESSIONS_PER_PROJECT
                           \<le> length (filter (\<lambda>s. s_projectId s = in_projectId input)
                                        (map snd (sessions m)))
                 then ProjectLimitReached
                 else case map_of (tools m) (in_tool input) of
                   None \<Rightarrow> UnsupportedTool (in_tool input)
                 | Some c \<Rightarrow>
                     if tool_available c = Some False then ToolNotAvailable (tool_name c)
                     else if in_cwd input = [] then CwdRequired
                     else case h_stat h (path_resolve (h_cwd h) (in_cwd input)) of
                       StatENOENT \<Rightarrow> FsFailure
                     | StatFails \<Rightarrow> FsFailure
                     | NotDirectory \<Rightarrow> CwdNotDirectory
                     | IsDirectory \<Rightarrow> CwdOutsideSandbox),
            m)"
proof -
  have r: "resolveCwd h (in_cwd input) =
      Inl (if in_cwd input = [] then CwdRequired
           else case h_stat h (path_resolve (h_cwd h) (in_cwd input)) of
                  StatENOENT \<Rightarrow> FsFailure
                | StatFails \<Rightarrow> FsFailure
                | NotDirectory \<Rightarrow> CwdNotDirectory
                | IsDirectory \<Rightarrow> CwdOutsideSandbox)"
    using real out
    by (cases "h_stat h (path_resolve (h_cwd h) (in_cwd input))")
       (simp_all add: resolveCwd_def Let_def realHome_def realTmp_def)
  show ?thesis
  proof (cases "MAX_TOTAL_SESSIONS \<le> length (sessions m)")
    case True
    then show ?thesis by (simp add: createSession_def)
  next
    case total: False
    show ?thesis
    proof (cases "MAX_SESSIONS_PER_PROJECT
                \<le> length (filter (\<lambda>s. s_projectId s = in_projectId input) (map snd (sessions m)))")
      case True
      with total show ?thesis by (simp add: createSession_def)
    next
      case proj: False
      show ?thesis
      proof (cases "map_of (tools m) (in_tool input)")
        case None
        with total proj show ?thesis by (simp add: createSession_def)
      next
        case (Some c)
        show ?thesis
        proof (cases "tool_available c = Some False")
          case True
          with total proj Some show ?thesis by (simp add: createSession_def)
        next
          case False
          with total proj Some show ?thesis by (simp add: createSession_def r)
        qed
      qed
    qed
  qed
qed

theorem createSession_outside_sandbox_witness:
  "createSession example_host 7 ''new'' (example_input ''/etc'')
     \<lparr>sessions = [], tools = tools0, spawn_log = []\<rparr>
   = (Inl CwdOutsideSandbox, \<lparr>sessions = [], tools = tools0, spawn_log = []\<rparr>)"
proof -
  have r: "h_realpath example_host (path_resolve (h_cwd example_host) (in_cwd (example_input ''/etc'')))
            = Some ''/etc''"
    by (simp add: example_host_def example_input_def path_resolve_def isAbsolute_def)
  have o: "\<not> within_roots (realHome example_host) (realTmp example_host)
              (path_resolve (h_cwd example_host) ''/etc'')"
    by (simp add: example_host_def within_roots_def realHome_def realTmp_def real_or_self_def
          path_resolve_def isAbsolute_def)
  from createSession_outside_sandbox [OF r o, where m = "\<lparr>sessions = [], tools = tools0, spawn_log = []\<rparr>"
      and now = 7 and new_id = "''new''"]
  show ?thesis
    by (simp add: example_host_def example_input_def tools0_def path_resolve_def isAbsolute_def
          MAX_TOTAL_SESSIONS_def MAX_SESSIONS_PER_PROJECT_def)
qed

text \<open>
  C3 as stated fails: with the tool marked unavailable, a call for the existing
  directory \<open>/etc\<close> (outside both roots) throws the tool error, not the sandbox
  violation.
\<close>

theorem createSession_sandbox_error_counterexample:
  "h_stat example_host (path_resolve (h_cwd example_host) ''/etc'') = IsDirectory
   \<and> h_realpath example_host (path_resolve (h_cwd example_host) ''/etc'') = Some ''/etc''
   \<and> \<not> within_roots (realHome example_host) (realTmp example_host)
         (path_resolve (h_cwd example_host) ''/etc'')
   \<and> fst (createSession example_host 7 ''new'' (example_input ''/etc'')
         \<lparr>sessions = [],
          tools = [(''codex'', \<lparr>tool_id = ''codex'', tool_name = ''Codex CLI'',
                     tool_command = ''codex'', tool_args = [], tool_available = Some False\<rparr>)],
          spawn_log = []\<rparr>)
       = Inl (ToolNotAvailable ''Codex CLI'')"
  by (simp add: example_host_def example_input_def within_roots_def realHome_def realTmp_def
        real_or_self_def path_resolve_def isAbsolute_def createSession_def
        MAX_TOTAL_SESSIONS_def MAX_SESSIONS_PER_PROJECT_def)

text \<open>
  C9. The trim function is the identity on inputs of at most 65536 units and returns at
  most 65536 units on every input; so after every append of an output chunk the stored
  buffer has at most 65536 units, and the snapshot sent on attach never exceeds that.
\<close>

theorem output_buffer_bounded:
  "(length buf \<le> BUFFER_LIMIT \<longrightarrow> trimToSafeStart buf = buf)
   \<and> length (trimToSafeStart buf) \<le> BUFFER_LIMIT
   \<and> length (s_buffer (appendBuffer session chunk)) \<le> BUFFER_LIMIT
   \<and> (\<forall>r. map_of (sessions (ptyOnData now sid chunk m)) sid = Some r
            \<longrightarrow> length (s_buffer r) \<le> BUFFER_LIMIT)
   \<and> (\<forall>data \<in> set (fst (attachWebSocket sid socket m)).
         \<forall>snap. data = SendSnapshot snap \<longrightarrow> length snap \<le> BUFFER_LIMIT)
   \<and> BUFFER_LIMIT = 65536"
proof -
  have a: "length (s_buffer (appendBuffer s c)) \<le> BUFFER_LIMIT" for s c
    using trimToSafeStart_length [of "s_buffer s @ c"]
    by (simp add: appendBuffer_def Let_def)
  have b: "\<forall>r. map_of (sessions (ptyOnData now sid chunk m)) sid = Some r
            \<longrightarrow> length (s_buffer r) \<le> BUFFER_LIMIT"
  proof (cases "map_of (sessions m) sid")
    case None
    then show ?thesis by (simp add: ptyOnData_def)
  next
    case (Some rcd)
    then show ?thesis using a [of "rcd\<lparr>s_lastActivity := now\<rparr>" chunk]
      by (simp add: ptyOnData_def update_conv')
  qed
  have c: "\<forall>data \<in> set (fst (attachWebSocket sid socket m)).
         \<forall>snap. data = SendSnapshot snap \<longrightarrow> length snap \<le> BUFFER_LIMIT"
    using trimToSafeStart_length
    by (cases "map_of (sessions m) sid") (auto simp: attachWebSocket_def Let_def)
  show ?thesis using a b c trimToSafeStart_length
    by (simp add: trimToSafeStart_def BUFFER_LIMIT_def)
qed

theorem output_buffer_bounded_witness:
  "length [0x61 :: 16 word] \<le> BUFFER_LIMIT \<and> trimToSafeStart [0x61] = [0x61]
   \<and> map_of (sessions (ptyOnData 5 ''a'' [0x62]
        \<lparr>sessions = [(''a'', (example_session ''a'' ''p1'')\<lparr>s_buffer := [0x61]\<rparr>)],
         tools = tools0, spawn_log = []\<rparr>)) ''a''
       = Some ((example_session ''a'' ''p1'')\<lparr>s_buffer := [0x61, 0x62], s_lastActivity := 5\<rparr>)
   \<and> SendSnapshot [0x61] \<in> set (fst (attachWebSocket ''a'' 3
        \<lparr>sessions = [(''a'', (example_session ''a'' ''p1'')\<lparr>s_buffer := [0x61]\<rparr>)],
         tools = tools0, spawn_log = []\<rparr>))
   \<and> length [0x61 :: 16 word] \<le> BUFFER_LIMIT"
  using output_buffer_bounded [of "[0x61]" "example_session ''a'' ''p1''" "[0x62]" 5 "''a''"
     "\<lparr>sessions = [(''a'', (example_session ''a'' ''p1'')\<lparr>s_buffer := [0x61]\<rparr>)],
         tools = tools0, spawn_log = []\<rparr>" 3]
  by (simp add: ptyOnData_def attachWebSocket_def appendBuffer_def example_session_def
        trimToSafeStart_def BUFFER_LIMIT_def)

section \<open>Properties of the token codec\<close>

lemma split_on_no_sep: "c \<notin> set s \<Longrightarrow> split_on c s = [s]"
  by (induction s) auto

lemma split_on_append:
  "c \<notin> set s \<Longrightarrow> split_on c (s @ c # t) = s # split_on c t"
  by (induction s) auto

lemma split_on_nonempty: "split_on c s \<noteq> []"
  by (induction s) (auto split: list.splits)

lemma verify_iff:
  "verifySessionToken L now token = Some p \<longleftrightarrow>
       (\<exists>payloadB64 signature rest.
           split_on CHR ''.'' token = payloadB64 # signature # rest
           \<and> payloadB64 \<noteq> [] \<and> signature \<noteq> []
           \<and> signature = hmac_b64url L payloadB64
           \<and> json_parse L (b64url_decode L payloadB64) = Some p
           \<and> p \<noteq> JNull
           \<and> \<not> exp_before L (payload_exp p) now)"
  by (auto simp: verifySessionToken_def split: list.splits option.splits)

text \<open>
  C2, as amended. Verification is total (it returns a value or \<open>None\<close>, never
  throws) and accepts exactly the tokens whose first two dot-separated segments are a
  non-empty payload and a non-empty signature equal to the recomputed HMAC of the payload
  segment, whose payload parses to a non-null value, and whose expiry is not strictly
  less than the current time; segments after the second are not looked at. So a token
  whose signature segment differs from the recomputed HMAC is rejected, a token whose
  payload carries an expiry strictly less than the current time is rejected, and a token
  freshly issued for a session id verifies, up to and including its expiry, to that
  session id and expiry (given that the library encodes without dots and decodes and
  parses back what it wrote).
\<close>

theorem verifySessionToken_accepts:
  "(verifySessionToken L now token = Some p \<longleftrightarrow>
       (\<exists>payloadB64 signature rest.
           split_on CHR ''.'' token = payloadB64 # signature # rest
           \<and> payloadB64 \<noteq> [] \<and> signature \<noteq> []
           \<and> signature = hmac_b64url L payloadB64
           \<and> json_parse L (b64url_decode L payloadB64) = Some p
           \<and> p \<noteq> JNull
           \<and> \<not> exp_before L (payload_exp p) now))
   \<and> (\<forall>payloadB64 signature rest.
         split_on CHR ''.'' token = payloadB64 # signature # rest
         \<and> signature \<noteq> hmac_b64url L payloadB64
         \<longrightarrow> verifySessionToken L now token = None)
   \<and> ((case split_on CHR ''.'' token of
           payloadB64 # signature # rest \<Rightarrow> payloadB64 = [] \<or> signature = []
         | _ \<Rightarrow> True)
        \<longrightarrow> verifySessionToken L now token = None)
   \<and> (\<forall>payloadB64 signature rest.
         split_on CHR ''.'' token = payloadB64 # signature # rest
         \<and> json_parse L (b64url_decode L payloadB64) = None
         \<longrightarrow> verifySessionToken L now token = None)
   \<and> (\<forall>payloadB64 signature rest sid exp.
         split_on CHR ''.'' token = payloadB64 # signature # rest
         \<and> json_parse L (b64url_decode L payloadB64) = Some (session_token sid exp)
         \<and> exp < now
         \<longrightarrow> verifySessionToken L now token = None)
   \<and> ((let payloadB64 = b64url_encode L (json_stringify L (session_token sid (t0 + TOKEN_TTL)))
        in payloadB64 \<noteq> [] \<and> CHR ''.'' \<notin> set payloadB64
           \<and> hmac_b64url L payloadB64 \<noteq> [] \<and> CHR ''.'' \<notin> set (hmac_b64url L payloadB64)
           \<and> json_parse L (b64url_decode L payloadB64) = Some (session_token sid (t0 + TOKEN_TTL)))
        \<and> now \<le> t0 + TOKEN_TTL
        \<longrightarrow> verifySessionToken L now (generateSessionToken L t0 sid)
              = Some (session_token sid (t0 + TOKEN_TTL)))"
proof -
  have 2: "\<forall>payloadB64 signature rest.
         split_on CHR ''.'' token = payloadB64 # signature # rest
         \<and> signature \<noteq> hmac_b64url L payloadB64
         \<longrightarrow> verifySessionToken L now token = None"
    by (simp add: verifySessionToken_def)
  have 5: "(case split_on CHR ''.'' token of
           payloadB64 # signature # rest \<Rightarrow> payloadB64 = [] \<or> signature = []
         | _ \<Rightarrow> True)
        \<longrightarrow> verifySessionToken L now token = None"
    by (auto simp: verifySessionToken_def split: list.splits)
  have 6: "\<forall>payloadB64 signature rest.
         split_on CHR ''.'' token = payloadB64 # signature # rest
         \<and> json_parse L (b64url_decode L payloadB64) = None
         \<longrightarrow> verifySessionToken L now token = None"
    by (auto simp: verifySessionToken_def)
  have 3: "\<forall>payloadB64 signature rest sid exp.
         split_on CHR ''.'' token = payloadB64 # signature # rest
         \<and> json_parse L (b64url_decode L payloadB64) = Some (session_token sid exp)
         \<and> exp < now
         \<longrightarrow> verifySessionToken L now token = None"
    by (auto simp: verifySessionToken_def session_token_def)
  have 4: "(let payloadB64 = b64url_encode L (json_stringify L (session_token sid (t0 + TOKEN_TTL)))
        in payloadB64 \<noteq> [] \<and> CHR ''.'' \<notin> set payloadB64
           \<and> hmac_b64url L payloadB64 \<noteq> [] \<and> CHR ''.'' \<notin> set (hmac_b64url L payloadB64)
           \<and> json_parse L (b64url_decode L payloadB64) = Some (session_token sid (t0 + TOKEN_TTL)))
        \<and> now \<le> t0 + TOKEN_TTL
        \<longrightarrow> verifySessionToken L now (generateSessionToken L t0 sid)
              = Some (session_token sid (t0 + TOKEN_TTL))"
  proof
    let ?P = "b64url_encode L (json_stringify L (session_token sid (t0 + TOKEN_TTL)))"
    let ?S = "hmac_b64url L ?P"
    assume a: "(let payloadB64 = ?P
        in payloadB64 \<noteq> [] \<and> CHR ''.'' \<notin> set payloadB64
           \<and> hmac_b64url L payloadB64 \<noteq> [] \<and> CHR ''.'' \<notin> set (hmac_b64url L payloadB64)
           \<and> json_parse L (b64url_decode L payloadB64) = Some (session_token sid (t0 + TOKEN_TTL)))
        \<and> now \<le> t0 + TOKEN_TTL"
    then have P: "?P \<noteq> []" "CHR ''.'' \<notin> set ?P" "?S \<noteq> []" "CHR ''.'' \<notin> set ?S"
      "json_parse L (b64url_decode L ?P) = Some (session_token sid (t0 + TOKEN_TTL))"
      "now \<le> t0 + TOKEN_TTL"
      by (simp_all add: Let_def)
    have g: "generateSessionToken L t0 sid = ?P @ CHR ''.'' # ?S"
      by (simp add: generateSessionToken_def Let_def)
    have "split_on CHR ''.'' (?P @ CHR ''.'' # ?S) = [?P, ?S]"
      using P(2) P(4) by (simp add: split_on_append split_on_no_sep)
    then show "verifySessionToken L now (generateSessionToken L t0 sid)
              = Some (session_token sid (t0 + TOKEN_TTL))"
      using P g by (simp add: verifySessionToken_def session_token_def)
  qed
  from verify_iff [of L now token p] 2 3 4 5 6 show ?thesis by blast
qed
theorem verifySessionToken_accepts_witness:
  "verifySessionToken example_lib 3600005 (generateSessionToken example_lib 5 ''A'')
     = Some (session_token ''A'' 3600005)
   \<and> verifySessionToken example_lib 3600006 (generateSessionToken example_lib 5 ''A'') = None
   \<and> verifySessionToken example_lib 6 ''sid=A;exp=3600005.mac5000063=pxe;A=diz'' = None"
  using verifySessionToken_accepts [where L = example_lib and now = 3600005 and ?t0.0 = 5 and sid = "''A''"
          and token = "generateSessionToken example_lib 5 ''A''" and p = "session_token ''A'' 3600005"]
    verifySessionToken_accepts [where L = example_lib and now = 3600006 and ?t0.0 = 5 and sid = "''A''"
          and token = "generateSessionToken example_lib 5 ''A''" and p = "session_token ''A'' 3600005"]
    verifySessionToken_accepts [where L = example_lib and now = 6 and ?t0.0 = 5 and sid = "''A''"
          and token = "''sid=A;exp=3600005.mac5000063=pxe;A=diz''" and p = "session_token ''A'' 3600005"]
  by (simp add: generateSessionToken_def example_lib_def session_token_def TOKEN_TTL_def
        verifySessionToken_def)

text \<open>
  C2 as stated fails: an issued token with a further segment appended does not have the
  shape of an issued token, and is accepted.
\<close>

theorem verifySessionToken_extra_segment_counterexample:
  "\<not> two_segment_token (generateSessionToken example_lib 5 ''A'' @ ''.x'')
   \<and> verifySessionToken example_lib 6 (generateSessionToken example_lib 5 ''A'' @ ''.x'')
       = Some (session_token ''A'' 3600005)"
  by (simp add: generateSessionToken_def example_lib_def session_token_def TOKEN_TTL_def
        verifySessionToken_def two_segment_token_def)

section \<open>Properties of the project registry\<close>

text \<open>
  C10. \<open>addProject\<close> with a path that is not absolute throws the error stating that
  the path must be absolute; the outcome does not depend on the file system, the hash
  or the clock (no file-system access or id derivation has happened), and the project
  table and the persisted store are unchanged.
\<close>

theorem addProject_requires_absolute_path:
  assumes "\<not> isAbsolute projectPath"
  shows "addProject h sha now projectPath name reg = (Inl (PathNotAbsolute projectPath), reg)
         \<and> addProject h' sha' now' projectPath name reg = addProject h sha now projectPath name reg
         \<and> projects (snd (addProject h sha now projectPath name reg)) = projects reg
         \<and> config_file (snd (addProject h sha now projectPath name reg)) = config_file reg
         \<and> registry_error_message (PathNotAbsolute projectPath)
             = ''Project path must be absolute: received '' @ [CHR 0x22] @ projectPath @ [CHR 0x22]"
  using assms by (simp add: addProject_def)

theorem addProject_requires_absolute_path_witness:
  "\<not> isAbsolute ''repos/app''
   \<and> addProject registry_host (\<lambda>s. s) 5 ''repos/app'' None (example_registry ''feat'' ''Feat'')
       = (Inl (PathNotAbsolute ''repos/app''), example_registry ''feat'' ''Feat'')"
  using addProject_requires_absolute_path [of "''repos/app''" registry_host "\<lambda>s. s" 5 None
      "example_registry ''feat'' ''Feat''" registry_host "\<lambda>s. s" 5 ]
  by (simp add: isAbsolute_def)



lemma canon_wt: "canonicalizePath registry_host ''/home/u/link/wt'' = ''/home/u/real/wt''"
  "canonicalizePath registry_host ''/home/u/real/wt'' = ''/home/u/real/wt''"
  "canonicalizePath registry_host ''/home/u/repo'' = ''/home/u/repo''"
  by (simp_all add: canonicalizePath_def normalizePath_def registry_host_def path_resolve_def
        isAbsolute_def strip_trailing_slashes_def)


lemma ensure_example:
  "ensureDefaultWorktree registry_host
     \<lparr> p_id = ''p1'', p_name = ''repo'', p_path = ''/home/u/repo'',
       p_status = RunningProject, p_lastAccessed = 0,
       p_worktrees = Some [\<lparr> w_id = ''default'', w_path = ''/home/u/repo'', w_title = ''default'' \<rparr>,
                           \<lparr> w_id = wid, w_path = ''/home/u/real/wt'', w_title = wtitle \<rparr>],
       p_settings = None \<rparr>
   = \<lparr> p_id = ''p1'', p_name = ''repo'', p_path = ''/home/u/repo'',
       p_status = RunningProject, p_lastAccessed = 0,
       p_worktrees = Some [\<lparr> w_id = ''default'', w_path = ''/home/u/repo'', w_title = ''default'' \<rparr>,
                           \<lparr> w_id = wid, w_path = ''/home/u/real/wt'',
                              w_title = (if wid = ''default'' then ''default''
                                         else if wtitle \<noteq> [] then wtitle else wid) \<rparr>],
       p_settings = Some \<lparr> st_autoPrompt = True, st_promptCharLimit = 8000 \<rparr> \<rparr>"
  by (simp add: ensureDefaultWorktree_def canon_wt applyDefaultSettings_def Let_def)



lemma update_first_ids:
  "(\<And>x. w_id (f x) = w_id x) \<Longrightarrow> map w_id (update_first P f xs) = map w_id xs"
  by (induction xs) auto

lemma find_None_ids: "find (\<lambda>w. w_id w = d) ws = None \<longleftrightarrow> d \<notin> set (map w_id ws)"
  by (induction ws) auto

lemma count_by_ids:
  "length (filter (\<lambda>w. w_id w = d) ws) = length (filter (\<lambda>i. i = d) (map w_id ws))"
  by (induction ws) auto

lemma ensureDefaultWorktree_ids:
  "map w_id (the_worktrees (ensureDefaultWorktree h info)) =
     (if ''default'' \<in> set (map w_id (the_worktrees info)) then map w_id (the_worktrees info)
      else map w_id (the_worktrees info) @ [''default''])"
proof (cases "find (\<lambda>w. w_id w = ''default'') (the_worktrees info)")
  case None
  then have "''default'' \<notin> set (map w_id (the_worktrees info))" by (simp add: find_None_ids)
  with None show ?thesis
    by (simp add: ensureDefaultWorktree_def Let_def the_worktrees_def comp_def)
next
  case (Some d)
  then have "''default'' \<in> set (map w_id (the_worktrees info))"
    using find_None_ids [of "''default''" "the_worktrees info"] by auto
  with Some show ?thesis
    using update_first_ids [of "\<lambda>w. w\<lparr>w_path := canonicalizePath h (p_path info), w_title := ''default''\<rparr>"
        "\<lambda>w. w_id w = ''default''" "the_worktrees info"]
    by (simp add: ensureDefaultWorktree_def Let_def the_worktrees_def comp_def)
qed

lemma count_member: "d \<in> set xs \<Longrightarrow> 1 \<le> length (filter (\<lambda>i. i = d) xs)"
  by (induction xs) auto

lemma count_absent: "d \<notin> set xs \<Longrightarrow> length (filter (\<lambda>i. i = d) xs) = 0"
  by (induction xs) auto

lemma default_count_ids:
  "default_count info = length (filter (\<lambda>i. i = ''default'') (map w_id (the_worktrees info)))"
  unfolding default_count_def by (rule count_by_ids)

lemma ensureDefaultWorktree_default_count:
  "default_count (ensureDefaultWorktree h info) = max 1 (default_count info)"
proof -
  define ids where "ids = map w_id (the_worktrees info)"
  define ids' where "ids' = map w_id (the_worktrees (ensureDefaultWorktree h info))"
  have e: "ids' = (if ''default'' \<in> set ids then ids else ids @ [''default''])"
    unfolding ids_def ids'_def by (rule ensureDefaultWorktree_ids)
  have "length (filter (\<lambda>i. i = ''default'') ids') = max 1 (length (filter (\<lambda>i. i = ''default'') ids))"
  proof (cases "''default'' \<in> set ids")
    case True
    with e count_member [OF True] show ?thesis by simp
  next
    case False
    with e count_absent [OF False] show ?thesis by simp
  qed
  then show ?thesis by (simp add: default_count_ids ids_def ids'_def)
qed

lemma ensureDefaultWorktree_fields:
  "p_id (ensureDefaultWorktree h info) = p_id info"
  "p_name (ensureDefaultWorktree h info) = p_name info"
  "p_lastAccessed (ensureDefaultWorktree h info) = p_lastAccessed info"
  "p_path (ensureDefaultWorktree h info) = canonicalizePath h (p_path info)"
  by (simp_all add: ensureDefaultWorktree_def Let_def)

lemma saveProjects_projects: "saveProjects h reg = Inr reg' \<Longrightarrow> projects reg' = projects reg"
  by (auto simp: saveProjects_def split: if_splits)

lemma addProject_success:
  assumes "addProject h sha now projectPath name reg = (Inr info, reg')"
  shows "info = added_info h now (getGitProjectId h sha (canonicalizePath h projectPath))
                  (canonicalizePath h projectPath) name
                  (map_of (projects reg) (getGitProjectId h sha (canonicalizePath h projectPath)))
         \<and> projects reg' = AList.update (getGitProjectId h sha (canonicalizePath h projectPath)) info
                              (projects reg)"
proof -
  let ?cp = "canonicalizePath h projectPath"
  let ?pid = "getGitProjectId h sha ?cp"
  have abs: "isAbsolute projectPath" and dir: "h_stat h (normalizePath h projectPath) = IsDirectory"
    using assms by (auto simp: addProject_def Let_def split: if_splits stat_result.splits)
  have cp: "(case h_realpath h (normalizePath h projectPath) of
               Some real \<Rightarrow> normalizePath h real
             | None \<Rightarrow> normalizePath h projectPath) = ?cp"
    by (simp add: canonicalizePath_def Let_def)
  show ?thesis
  proof (cases "map_of (projects reg) ?pid")
    case None
    with assms abs dir cp show ?thesis
      by (auto simp: addProject_def Let_def added_info_def
            split: sum.splits dest: saveProjects_projects)
  next
    case (Some existing)
    with assms abs dir cp show ?thesis
      by (auto simp: addProject_def Let_def added_info_def
            split: sum.splits dest: saveProjects_projects)
  qed
qed


lemma registry_ok_update:
  assumes ok: "registry_ok reg"
    and upd: "projects reg' = AList.update k info (projects reg)"
    and id: "p_id info = k" and one: "default_count info = 1"
  shows "registry_ok reg'"
proof -
  have d: "distinct (map fst (projects reg))" using ok by (simp add: registry_ok_def)
  have d': "distinct (map fst (projects reg'))" unfolding upd using d by (rule distinct_update)
  have "p_id i = k' \<and> default_count i = 1" if m: "(k', i) \<in> set (projects reg')" for k' i
  proof -
    have "map_of (projects reg') k' = Some i" using d' m by (rule map_of_is_SomeI)
    then have u: "((map_of (projects reg))(k \<mapsto> info)) k' = Some i"
      unfolding upd update_conv' .
    show ?thesis
    proof (cases "k' = k")
      case True
      then have "i = info" using u by simp
      with True id one show ?thesis by simp
    next
      case False
      then have "map_of (projects reg) k' = Some i" using u by simp
      then have "(k', i) \<in> set (projects reg)" by (rule map_of_SomeD)
      with ok show ?thesis unfolding registry_ok_def by blast
    qed
  qed
  with d' show ?thesis unfolding registry_ok_def by blast
qed

lemma registry_ok_lookup:
  "registry_ok reg \<Longrightarrow> map_of (projects reg) k = Some info \<Longrightarrow> p_id info = k \<and> default_count info = 1"
  by (auto simp: registry_ok_def dest: map_of_SomeD)

lemma one_record_per_key:
  "distinct (map fst al) \<Longrightarrow> map_of al k = Some v \<Longrightarrow> length (filter (\<lambda>(k', i). k' = k) al) = 1"
proof (induction al)
  case Nil
  then show ?case by simp
next
  case (Cons a al)
  obtain k0 v0 where a: "a = (k0, v0)" by (cases a)
  show ?case
  proof (cases "k0 = k")
    case True
    then have "k \<notin> fst ` set al" using Cons.prems a by auto
    then have "filter (\<lambda>(k', i). k' = k) al = []"
      by (auto simp: filter_empty_conv image_iff)
    with True a show ?thesis by simp
  next
    case False
    with Cons a show ?thesis by simp
  qed
qed

lemma added_info_props:
  assumes "\<And>e. found = Some e \<Longrightarrow> p_id e = pid \<and> default_count e = 1"
  shows "p_id (added_info h now pid cp name found) = pid"
    and "default_count (added_info h now pid cp name found) = 1"
    and "p_lastAccessed (added_info h now pid cp name found) = now"
proof -
  show "p_lastAccessed (added_info h now pid cp name found) = now"
    by (cases found) (simp_all add: added_info_def Let_def ensureDefaultWorktree_fields)
  show "p_id (added_info h now pid cp name found) = pid"
    using assms
    by (cases found) (simp_all add: added_info_def Let_def ensureDefaultWorktree_fields)
  show "default_count (added_info h now pid cp name found) = 1"
  proof (cases found)
    case None
    then show ?thesis
      by (simp add: added_info_def Let_def ensureDefaultWorktree_default_count)
         (simp add: default_count_def the_worktrees_def)
  next
    case (Some e)
    then have e1: "default_count e = 1" using assms by simp
    have dc: "default_count (x\<lparr>p_lastAccessed := now\<rparr>) = default_count x"
      "default_count (x\<lparr>p_path := cp\<rparr>) = default_count x"
      "default_count (x\<lparr>p_name := n\<rparr>) = default_count x" for x n
      by (simp_all add: default_count_def the_worktrees_def)
    show ?thesis using Some e1
      by (simp add: added_info_def Let_def dc ensureDefaultWorktree_default_count)
  qed
qed

lemma added_info_existing_name:
  "p_name (added_info h now pid cp name (Some e)) =
     (case map_option trim name of
        Some n \<Rightarrow> if n \<noteq> [] then n else p_name e
      | None \<Rightarrow> p_name e)"
  by (cases name) (auto simp: added_info_def Let_def ensureDefaultWorktree_fields)

lemma added_info_existing_path:
  "canonicalizePath h cp = cp \<Longrightarrow> p_path (added_info h now pid cp name (Some e)) = cp"
  by (auto simp: added_info_def Let_def ensureDefaultWorktree_fields)

text \<open>
  C6. The project id is a function of the canonicalized path alone (the first 16 hex
  digits of its hash). Registering the same canonical path twice returns the same id
  both times, adds no record (the key list is unchanged and exactly one record is stored
  under the id), updates the name when a non-blank one is given, keeps the canonical
  path, stamps last-accessed, and leaves exactly one \<open>default\<close> worktree entry.
\<close>

theorem addProject_idempotent:
  assumes ok: "registry_ok reg"
    and first: "addProject h sha t1 projectPath name1 reg = (Inr info1, reg1)"
    and second: "addProject h sha t2 projectPath2 name2 reg1 = (Inr info2, reg2)"
    and same: "canonicalizePath h projectPath2 = canonicalizePath h projectPath"
  shows "p_id info1 = getGitProjectId h sha (canonicalizePath h projectPath)
       \<and> p_id info2 = p_id info1
       \<and> map fst (projects reg2) = map fst (projects reg1)
       \<and> length (filter (\<lambda>(k, i). k = p_id info1) (projects reg2)) = 1
       \<and> map_of (projects reg2) (p_id info1) = Some info2
       \<and> default_count info2 = 1
       \<and> p_lastAccessed info2 = t2
       \<and> p_name info2 = (case map_option trim name2 of
                            Some n \<Rightarrow> if n \<noteq> [] then n else p_name info1
                          | None \<Rightarrow> p_name info1)
       \<and> (canonicalizePath h (canonicalizePath h projectPath) = canonicalizePath h projectPath
            \<longrightarrow> p_path info2 = canonicalizePath h projectPath)
       \<and> registry_ok reg2"
proof -
  let ?cp = "canonicalizePath h projectPath"
  let ?pid = "getGitProjectId h sha ?cp"
  from addProject_success [OF first]
  have i1: "info1 = added_info h t1 ?pid ?cp name1 (map_of (projects reg) ?pid)"
    and p1: "projects reg1 = AList.update ?pid info1 (projects reg)" by simp_all
  have pre1: "\<And>e. map_of (projects reg) ?pid = Some e \<Longrightarrow> p_id e = ?pid \<and> default_count e = 1"
    using ok by (rule registry_ok_lookup)
  have id1: "p_id info1 = ?pid"
    unfolding i1 using pre1 by (rule added_info_props(1))
  have dc1: "default_count info1 = 1"
    unfolding i1 using pre1 by (rule added_info_props(2))
  have ok1: "registry_ok reg1" using ok p1 id1 dc1 by (rule registry_ok_update)
  have look1: "map_of (projects reg1) ?pid = Some info1" by (simp add: p1 update_conv')
  from addProject_success [OF second] same
  have i2: "info2 = added_info h t2 ?pid ?cp name2 (Some info1)"
    and p2: "projects reg2 = AList.update ?pid info2 (projects reg1)" by (simp_all add: look1)
  have pre2: "\<And>e. Some info1 = Some e \<Longrightarrow> p_id e = ?pid \<and> default_count e = 1"
    using id1 dc1 by simp
  have id2: "p_id info2 = ?pid"
    unfolding i2 using pre2 by (rule added_info_props(1))
  have dc2: "default_count info2 = 1"
    unfolding i2 using pre2 by (rule added_info_props(2))
  have la2: "p_lastAccessed info2 = t2"
    unfolding i2 using pre2 by (rule added_info_props(3))
  have ok2: "registry_ok reg2" using ok1 p2 id2 dc2 by (rule registry_ok_update)
  have look2: "map_of (projects reg2) ?pid = Some info2" by (simp add: p2 update_conv')
  have "?pid \<in> set (map fst (projects reg1))"
    using look1 by (metis map_of_eq_None_iff option.distinct(1) set_map)
  then have keys: "map fst (projects reg2) = map fst (projects reg1)"
    by (simp add: p2 update_keys)
  have d2: "distinct (map fst (projects reg2))" using ok2 by (simp add: registry_ok_def)
  have one: "length (filter (\<lambda>(k, i). k = ?pid) (projects reg2)) = 1"
    using d2 look2 by (rule one_record_per_key)
  have nm: "p_name info2 = (case map_option trim name2 of
                            Some n \<Rightarrow> if n \<noteq> [] then n else p_name info1
                          | None \<Rightarrow> p_name info1)"
    unfolding i2 by (rule added_info_existing_name)
  have pth: "canonicalizePath h ?cp = ?cp \<longrightarrow> p_path info2 = ?cp"
    unfolding i2 by (simp add: added_info_existing_path)
  show ?thesis
    using id1 id2 keys one look2 dc2 la2 nm pth ok2 by simp
qed

lemma canon_repo:
  "canonicalizePath registry_host ''/home/u/repo'' = ''/home/u/repo''"
  "canonicalizePath registry_host ''/home/u/repo/'' = ''/home/u/repo''"
  "normalizePath registry_host ''/home/u/repo'' = ''/home/u/repo''"
  "normalizePath registry_host ''/home/u/repo/'' = ''/home/u/repo''"
  by (simp_all add: canonicalizePath_def normalizePath_def registry_host_def path_resolve_def
        isAbsolute_def strip_trailing_slashes_def)

lemma host_repo:
  "h_stat registry_host ''/home/u/repo'' = IsDirectory"
  "h_realpath registry_host ''/home/u/repo'' = Some ''/home/u/repo''"
  "h_write_ok registry_host"
  by (simp_all add: registry_host_def)

theorem addProject_idempotent_witness:
  "registry_ok empty_registry
   \<and> addProject registry_host (\<lambda>s. s) 1 ''/home/u/repo'' None empty_registry
       = (Inr (repo_info ''repo'' 1 RunningProject), repo_registry ''repo'' 1)
   \<and> addProject registry_host (\<lambda>s. s) 2 ''/home/u/repo/'' (Some '' Console '') (repo_registry ''repo'' 1)
       = (Inr (repo_info ''Console'' 2 RunningProject), repo_registry ''Console'' 2)
   \<and> default_count (repo_info ''Console'' 2 RunningProject) = 1"
proof -
  have ok: "registry_ok empty_registry"
    by (simp add: registry_ok_def empty_registry_def)
  have first: "addProject registry_host (\<lambda>s. s) 1 ''/home/u/repo'' None empty_registry
       = (Inr (repo_info ''repo'' 1 RunningProject), repo_registry ''repo'' 1)"
    by (simp add: addProject_def canon_repo host_repo isAbsolute_def empty_registry_def
          getGitProjectId_def ensureDefaultWorktree_def applyDefaultSettings_def saveProjects_def
          repo_info_def repo_registry_def Let_def)
  have second: "addProject registry_host (\<lambda>s. s) 2 ''/home/u/repo/'' (Some '' Console '')
          (repo_registry ''repo'' 1)
       = (Inr (repo_info ''Console'' 2 RunningProject), repo_registry ''Console'' 2)"
    by (simp add: addProject_def canon_repo host_repo isAbsolute_def
          getGitProjectId_def ensureDefaultWorktree_def applyDefaultSettings_def saveProjects_def
          repo_info_def repo_registry_def Let_def trim_def is_space_def)
  have same: "canonicalizePath registry_host ''/home/u/repo/'' = canonicalizePath registry_host ''/home/u/repo''"
    by (simp add: canon_repo)
  from addProject_idempotent [OF ok first second same] ok first second
  show ?thesis by simp
qed

lemma norm_examples:
  "normalizePath registry_host ''/home/u/repo'' = ''/home/u/repo''"
  "normalizePath registry_host ''/home/u/real/wt'' = ''/home/u/real/wt''"
  "normalizePath registry_host ''/home/u/link/wt'' = ''/home/u/link/wt''"
  by (simp_all add: normalizePath_def registry_host_def path_resolve_def
        isAbsolute_def strip_trailing_slashes_def)

lemma host_examples:
  "h_stat registry_host ''/home/u/repo'' = IsDirectory"
  "h_stat registry_host ''/home/u/link/wt'' = IsDirectory"
  "h_realpath registry_host ''/home/u/repo'' = Some ''/home/u/repo''"
  "h_realpath registry_host ''/home/u/real/wt'' = Some ''/home/u/real/wt''"
  "h_realpath registry_host ''/home/u/link/wt'' = Some ''/home/u/real/wt''"
  "h_write_ok registry_host"
  by (simp_all add: registry_host_def)

text \<open>
  The \<open>default\<close> entry is always present after \<open>ensureDefaultWorktree\<close>, and both
  ways of removing it, the registry's \<open>removeWorktreeMetadata\<close> and the removal
  endpoint, reject the request whatever the force flag, with the entry still present.
\<close>

lemma default_id_present:
  "''default'' \<in> set (map w_id (the_worktrees (ensureDefaultWorktree h info)))"
  unfolding ensureDefaultWorktree_ids by (cases "''default'' \<in> set (map w_id (the_worktrees info))") simp_all

lemma find_default_present:
  "\<exists>d. find (\<lambda>w. w_id w = ''default'') (the_worktrees (ensureDefaultWorktree h info)) = Some d
       \<and> w_id d = ''default''"
proof -
  have "''default'' \<in> set (map w_id (the_worktrees (ensureDefaultWorktree h info)))"
    by (rule default_id_present)
  then have "find (\<lambda>w. w_id w = ''default'') (the_worktrees (ensureDefaultWorktree h info)) \<noteq> None"
    by (simp add: find_None_ids)
  then obtain d where d: "find (\<lambda>w. w_id w = ''default'') (the_worktrees (ensureDefaultWorktree h info)) = Some d"
    by auto
  then have "w_id d = ''default''" by (auto simp: find_Some_iff)
  with d show ?thesis by blast
qed

lemma removeWorktreeMetadata_default_rejected:
  assumes "map_of (projects reg) projectId = Some info"
  shows "\<exists>reg' info'. removeWorktreeMetadata h projectId ''default'' reg = (Inl CannotRemoveDefault, reg')
           \<and> map_of (projects reg') projectId = Some info'
           \<and> ''default'' \<in> set (map w_id (the_worktrees info'))"
  using assms default_id_present [of h info]
  by (simp add: removeWorktreeMetadata_def Let_def update_conv')

lemma deleteWorktreeRoute_default_rejected:
  assumes "map_of (projects reg) projectId = Some info"
  shows "\<exists>reg' info'. deleteWorktreeRoute h git_remove listing projectId ''default'' force reg
             = (HttpError 400 ''Cannot remove default worktree'', reg')
           \<and> map_of (projects reg') projectId = Some info'
           \<and> ''default'' \<in> set (map w_id (the_worktrees info'))"
proof -
  obtain d where d: "find (\<lambda>w. w_id w = ''default'') (the_worktrees (ensureDefaultWorktree h info)) = Some d"
    "w_id d = ''default''"
    using find_default_present by blast
  with assms default_id_present [of h info] show ?thesis
    by (simp add: deleteWorktreeRoute_def getProject_def findWorktreeById_def Let_def update_conv')
qed
text \<open>
  C5, at the input where the code departs from it. Renaming the \<open>default\<close> entry
  through \<open>updateWorktreeTitle\<close> stores the new title: after the operation the entry's
  title is not \<open>default\<close>, and the save that follows in the rename endpoint writes it
  to the persisted store.
\<close>

theorem rename_default_worktree_stores_title:
  "fst (updateWorktreeTitle registry_host ''p1'' ''default'' ''Main checkout''
          (example_registry ''feat'' ''Feat''))
     = Inr \<lparr> w_id = ''default'', w_path = ''/home/u/repo'', w_title = ''Main checkout'' \<rparr>
   \<and> map_option the_worktrees
         (map_of (projects (snd (updateWorktreeTitle registry_host ''p1'' ''default'' ''Main checkout''
                                   (example_registry ''feat'' ''Feat'')))) ''p1'')
       = Some [\<lparr> w_id = ''default'', w_path = ''/home/u/repo'', w_title = ''Main checkout'' \<rparr>,
               \<lparr> w_id = ''feat'', w_path = ''/home/u/real/wt'', w_title = ''Feat'' \<rparr>]
   \<and> map_option (map (\<lambda>info. map w_title (the_worktrees info)))
         (case saveProjects registry_host
                 (snd (updateWorktreeTitle registry_host ''p1'' ''default'' ''Main checkout''
                         (example_registry ''feat'' ''Feat''))) of
            Inr reg \<Rightarrow> config_file reg | Inl e \<Rightarrow> None)
       = Some [[''Main checkout'', ''Feat'']]"
  by (simp add: updateWorktreeTitle_def example_registry_def ensure_example the_worktrees_def
        saveProjects_def host_examples Let_def)

subsection \<open>The registry invariant\<close>

text \<open>
  Every operation keeps the invariant: generated ids are never \<open>default\<close>, renaming
  and path correction keep ids, and removal never takes the \<open>default\<close> entry. After
  \<open>ensureDefaultWorktree\<close> the \<open>default\<close> entry carries the title \<open>default\<close> and the
  canonical form of the project path.
\<close>

lemma next_free_id_fresh:
  "next_free_id reserved base counter \<notin> set reserved
   \<and> next_free_id reserved base counter \<noteq> ''default''"
proof (induction reserved base counter rule: next_free_id.induct)
  case (1 reserved base counter)
  show ?case
  proof (cases "candidate_id base counter \<in> set reserved \<or> candidate_id base counter = ''default''")
    case True
    then have "next_free_id reserved base counter = next_free_id reserved base (counter + 1)"
      by (subst next_free_id.simps) (simp add: Let_def)
    with 1 True show ?thesis by simp
  next
    case False
    then have "next_free_id reserved base counter = candidate_id base counter"
      by (subst next_free_id.simps) (simp add: Let_def)
    with False show ?thesis by simp
  qed
qed

lemma generateWorktreeId_fresh:
  "generateWorktreeId info title \<notin> set (map w_id (the_worktrees info))
   \<and> generateWorktreeId info title \<noteq> ''default''"
  using next_free_id_fresh [of "map w_id (the_worktrees info)" "slugify title" 2]
  by (auto simp: generateWorktreeId_def Let_def)

lemma update_first_replace_ids:
  "find P xs = Some x \<Longrightarrow> w_id y = w_id x \<Longrightarrow> map w_id (update_first P (\<lambda>_. y) xs) = map w_id xs"
  by (induction xs) (auto split: if_splits)

lemma default_count_of_ids:
  "map w_id (the_worktrees info') = map w_id (the_worktrees info) \<Longrightarrow> default_count info' = default_count info"
  by (simp add: default_count_ids)

lemma the_worktrees_set [simp]: "the_worktrees (info\<lparr>p_worktrees := Some ws\<rparr>) = ws"
  by (simp add: the_worktrees_def)

lemma ensured_ok:
  assumes "p_id info = k" "default_count info = 1"
  shows "p_id (ensureDefaultWorktree h info) = k" "default_count (ensureDefaultWorktree h info) = 1"
  using assms by (simp_all add: ensureDefaultWorktree_fields ensureDefaultWorktree_default_count)

lemma registry_ok_same_projects:
  "projects reg' = projects reg \<Longrightarrow> registry_ok reg \<Longrightarrow> registry_ok reg'"
  by (simp add: registry_ok_def)

lemma registry_ok_delete:
  assumes "registry_ok reg" "projects reg' = AList.delete k (projects reg)"
  shows "registry_ok reg'"
proof -
  have "distinct (map fst (projects reg'))"
    using assms by (simp add: registry_ok_def distinct_delete)
  moreover have "set (projects reg') \<subseteq> set (projects reg)"
    using assms(2) by (auto simp: AList.delete_eq)
  ultimately show ?thesis using assms(1) unfolding registry_ok_def by blast
qed

lemma getWorktrees_ok: "registry_ok reg \<Longrightarrow> registry_ok (snd (getWorktrees h i reg))"
proof (cases "map_of (projects reg) i")
  case None
  assume "registry_ok reg"
  with None show ?thesis by (simp add: getWorktrees_def)
next
  case (Some info)
  assume ok: "registry_ok reg"
  have a: "p_id info = i" "default_count info = 1" using registry_ok_lookup [OF ok Some] by simp_all
  have "registry_ok (reg\<lparr>projects := AList.update i (ensureDefaultWorktree h info) (projects reg)\<rparr>)"
    by (rule registry_ok_update [OF ok _ ensured_ok [OF a]]) simp
  with Some show ?thesis by (simp add: getWorktrees_def Let_def)
qed

lemma findWorktreeById_ok: "registry_ok reg \<Longrightarrow> registry_ok (snd (findWorktreeById h i w reg))"
proof (cases "map_of (projects reg) i")
  case None
  assume "registry_ok reg"
  with None show ?thesis by (simp add: findWorktreeById_def)
next
  case (Some info)
  assume ok: "registry_ok reg"
  have a: "p_id info = i" "default_count info = 1" using registry_ok_lookup [OF ok Some] by simp_all
  have "registry_ok (reg\<lparr>projects := AList.update i (ensureDefaultWorktree h info) (projects reg)\<rparr>)"
    by (rule registry_ok_update [OF ok _ ensured_ok [OF a]]) simp
  with Some show ?thesis by (simp add: findWorktreeById_def Let_def)
qed

lemma updateWorktreeTitle_ok:
  assumes ok: "registry_ok reg"
  shows "registry_ok (snd (updateWorktreeTitle h i w t reg))"
proof (cases "map_of (projects reg) i")
  case None
  with ok show ?thesis by (simp add: updateWorktreeTitle_def)
next
  case (Some info)
  let ?info1 = "ensureDefaultWorktree h info"
  have a: "p_id info = i" "default_count info = 1" using registry_ok_lookup [OF ok Some] by simp_all
  note e = ensured_ok [OF a, of h]
  have ok1: "registry_ok (reg\<lparr>projects := AList.update i ?info1 (projects reg)\<rparr>)"
    by (rule registry_ok_update [OF ok _ e]) simp
  show ?thesis
  proof (cases "find (\<lambda>x. w_id x = w) (the_worktrees ?info1)")
    case None
    with Some ok1 show ?thesis by (simp add: updateWorktreeTitle_def Let_def)
  next
    case (Some metadata)
    let ?info2 = "?info1\<lparr>p_worktrees :=
                     Some (update_first (\<lambda>x. w_id x = w) (\<lambda>x. x\<lparr>w_title := t\<rparr>) (the_worktrees ?info1))\<rparr>"
    have ids: "map w_id (the_worktrees ?info2) = map w_id (the_worktrees ?info1)"
      by (simp add: update_first_ids)
    have "p_id ?info2 = i" using e by simp
    moreover have "default_count ?info2 = 1"
      using default_count_of_ids [OF ids] e by simp
    ultimately have "registry_ok (reg\<lparr>projects := AList.update i ?info2 (projects reg), dirty := True\<rparr>)"
      by (intro registry_ok_update [OF ok]) simp_all
    with Some \<open>map_of (projects reg) i = Some info\<close> show ?thesis
      by (simp add: updateWorktreeTitle_def Let_def)
  qed
qed

lemma filter_other_id_count:
  "w \<noteq> d \<Longrightarrow> length (filter (\<lambda>x. w_id x = d) (filter (\<lambda>x. w_id x \<noteq> w) ws))
      = length (filter (\<lambda>x. w_id x = d) ws)"
  by (induction ws) auto

lemma removeWorktreeMetadata_ok:
  assumes ok: "registry_ok reg"
  shows "registry_ok (snd (removeWorktreeMetadata h i w reg))"
proof (cases "map_of (projects reg) i")
  case None
  with ok show ?thesis by (simp add: removeWorktreeMetadata_def)
next
  case (Some info)
  let ?info1 = "ensureDefaultWorktree h info"
  have a: "p_id info = i" "default_count info = 1" using registry_ok_lookup [OF ok Some] by simp_all
  note e = ensured_ok [OF a, of h]
  have ok1: "registry_ok (reg\<lparr>projects := AList.update i ?info1 (projects reg)\<rparr>)"
    by (rule registry_ok_update [OF ok _ e]) simp
  show ?thesis
  proof (cases "w = ''default''")
    case True
    with Some ok1 show ?thesis by (simp add: removeWorktreeMetadata_def Let_def)
  next
    case False
    let ?info2 = "?info1\<lparr>p_worktrees := Some (filter (\<lambda>x. w_id x \<noteq> w) (the_worktrees ?info1))\<rparr>"
    have "p_id ?info2 = i" using e by simp
    moreover have "default_count ?info2 = 1"
      using e(2) filter_other_id_count [OF False, of "the_worktrees ?info1"]
      by (simp add: default_count_def)
    ultimately have "registry_ok (reg\<lparr>projects := AList.update i ?info2 (projects reg),
        dirty := (dirty reg \<or> length (filter (\<lambda>x. w_id x \<noteq> w) (the_worktrees ?info1))
                              \<noteq> length (the_worktrees ?info1))\<rparr>)"
      by (intro registry_ok_update [OF ok]) simp_all
    with Some False show ?thesis by (simp add: removeWorktreeMetadata_def Let_def)
  qed
qed

lemma ensureWorktreeMetadata_ok:
  assumes ok: "registry_ok reg"
  shows "registry_ok (snd (ensureWorktreeMetadata h i p t reg))"
proof (cases "map_of (projects reg) i")
  case None
  with ok show ?thesis by (simp add: ensureWorktreeMetadata_def)
next
  case (Some info)
  let ?info1 = "ensureDefaultWorktree h info"
  let ?np = "canonicalizePath h p"
  let ?m = "\<lambda>x. canonicalizePath h (w_path x) = ?np"
  have a: "p_id info = i" "default_count info = 1" using registry_ok_lookup [OF ok Some] by simp_all
  note e = ensured_ok [OF a, of h]
  show ?thesis
  proof (cases "find ?m (the_worktrees ?info1)")
    case None
    have gen: "registry_ok (reg\<lparr>projects := AList.update i
                  (?info1\<lparr>p_worktrees := Some (the_worktrees ?info1 @
                      [\<lparr> w_id = generateWorktreeId ?info1 wt, w_path = ?np, w_title = wt \<rparr>])\<rparr>)
                  (projects reg), dirty := True\<rparr>)" for wt
    proof -
      let ?md = "\<lparr> w_id = generateWorktreeId ?info1 wt, w_path = ?np, w_title = wt \<rparr>"
      let ?info2 = "?info1\<lparr>p_worktrees := Some (the_worktrees ?info1 @ [?md])\<rparr>"
      have nd: "w_id ?md \<noteq> ''default''" using generateWorktreeId_fresh [of ?info1 wt] by simp
      have "p_id ?info2 = i" using e by simp
      moreover have "default_count ?info2 = 1" using e(2) nd by (simp add: default_count_def)
      ultimately show ?thesis
        by (intro registry_ok_update [OF ok]) simp_all
    qed
    from Some None show ?thesis
      by (simp add: ensureWorktreeMetadata_def Let_def gen)
  next
    case (Some existing)
    define e2 where "e2 = (if overwrites (existing\<lparr>w_path := ?np\<rparr>) t
                           then existing\<lparr>w_path := ?np, w_title := trim (the t)\<rparr>
                           else existing\<lparr>w_path := ?np\<rparr>)"
    let ?info2 = "?info1\<lparr>p_worktrees := Some (update_first ?m (\<lambda>_. e2) (the_worktrees ?info1))\<rparr>"
    have "w_id e2 = w_id existing" by (simp add: e2_def)
    then have ids: "map w_id (the_worktrees ?info2) = map w_id (the_worktrees ?info1)"
      using update_first_replace_ids [OF Some] by simp
    have "p_id ?info2 = i" using e by simp
    moreover have "default_count ?info2 = 1"
      using default_count_of_ids [OF ids] e by simp
    ultimately have "registry_ok (reg\<lparr>projects := AList.update i ?info2 (projects reg),
        dirty := (dirty reg \<or> w_path existing \<noteq> ?np \<or> overwrites (existing\<lparr>w_path := ?np\<rparr>) t)\<rparr>)"
      by (intro registry_ok_update [OF ok]) simp_all
    with Some \<open>map_of (projects reg) i = Some info\<close> show ?thesis
      by (simp add: ensureWorktreeMetadata_def Let_def e2_def)
  qed
qed


lemma addProject_projects:
  "projects (snd (addProject h sha now p name reg)) = projects reg
   \<or> projects (snd (addProject h sha now p name reg))
       = AList.update (getGitProjectId h sha (canonicalizePath h p))
           (added_info h now (getGitProjectId h sha (canonicalizePath h p)) (canonicalizePath h p) name
              (map_of (projects reg) (getGitProjectId h sha (canonicalizePath h p))))
           (projects reg)"
proof -
  let ?cp = "canonicalizePath h p"
  let ?pid = "getGitProjectId h sha ?cp"
  have cp: "(case h_realpath h (normalizePath h p) of
               Some real \<Rightarrow> normalizePath h real
             | None \<Rightarrow> normalizePath h p) = ?cp"
    by (simp add: canonicalizePath_def Let_def)
  show ?thesis
  proof (cases "isAbsolute p \<and> h_stat h (normalizePath h p) = IsDirectory")
    case False
    then have "snd (addProject h sha now p name reg) = reg"
      by (auto simp: addProject_def Let_def split: stat_result.splits)
    then show ?thesis by simp
  next
    case True
    show ?thesis
    proof (cases "map_of (projects reg) ?pid")
      case None
      with True cp show ?thesis
        by (auto simp: addProject_def Let_def added_info_def
              split: sum.splits dest: saveProjects_projects)
    next
      case (Some existing)
      with True cp show ?thesis
        by (auto simp: addProject_def Let_def added_info_def
              split: sum.splits dest: saveProjects_projects)
    qed
  qed
qed

lemma addProject_ok:
  assumes ok: "registry_ok reg"
  shows "registry_ok (snd (addProject h sha now p name reg))"
proof -
  let ?cp = "canonicalizePath h p"
  let ?pid = "getGitProjectId h sha ?cp"
  let ?info = "added_info h now ?pid ?cp name (map_of (projects reg) ?pid)"
  have pre: "\<And>e. map_of (projects reg) ?pid = Some e \<Longrightarrow> p_id e = ?pid \<and> default_count e = 1"
    using ok by (rule registry_ok_lookup)
  have i: "p_id ?info = ?pid" using pre by (rule added_info_props(1))
  have d: "default_count ?info = 1" using pre by (rule added_info_props(2))
  from addProject_projects [of h sha now p name reg]
  show ?thesis
  proof
    assume "projects (snd (addProject h sha now p name reg)) = projects reg"
    then show ?thesis using ok by (rule registry_ok_same_projects)
  next
    assume "projects (snd (addProject h sha now p name reg)) = AList.update ?pid ?info (projects reg)"
    with ok show ?thesis using i d by (rule registry_ok_update)
  qed
qed

lemma removeProject_ok:
  assumes ok: "registry_ok reg"
  shows "registry_ok (snd (removeProject h i reg))"
proof (cases "map_of (projects reg) i")
  case None
  with ok show ?thesis by (simp add: removeProject_def)
next
  case (Some info)
  let ?reg1 = "reg\<lparr>projects := AList.delete i (projects reg), dirty := True\<rparr>"
  have ok1: "registry_ok ?reg1" by (rule registry_ok_delete [OF ok]) simp
  show ?thesis
  proof (cases "saveProjects h ?reg1")
    case (Inl e)
    with Some ok1 show ?thesis by (simp add: removeProject_def Let_def)
  next
    case (Inr reg2)
    then have "projects reg2 = projects ?reg1" by (rule saveProjects_projects)
    then have "registry_ok reg2" using ok1 by (rule registry_ok_same_projects)
    with Some Inr show ?thesis by (simp add: removeProject_def Let_def)
  qed
qed

lemma registry_ok_preserved:
  assumes ok: "registry_ok reg"
  shows "registry_ok (registry_after h sha operation reg)"
proof (cases operation)
  case (AddProject p name now)
  with ok show ?thesis by (simp add: addProject_ok)
next
  case (RemoveProject i)
  with ok show ?thesis by (simp add: removeProject_ok)
next
  case (GetWorktrees i)
  with ok show ?thesis by (simp add: getWorktrees_ok)
next
  case (FindWorktreeById i w)
  with ok show ?thesis by (simp add: findWorktreeById_ok)
next
  case (EnsureWorktreeMetadata i p t)
  with ok show ?thesis by (simp add: ensureWorktreeMetadata_ok)
next
  case (UpdateWorktreeTitle i w t)
  with ok show ?thesis by (simp add: updateWorktreeTitle_ok)
next
  case (RemoveWorktreeMetadata i w)
  with ok show ?thesis by (simp add: removeWorktreeMetadata_ok)
next
  case SaveProjects
  show ?thesis
  proof (cases "saveProjects h reg")
    case (Inl e)
    with SaveProjects ok show ?thesis by simp
  next
    case (Inr reg')
    then have "projects reg' = projects reg" by (rule saveProjects_projects)
    then have "registry_ok reg'" using ok by (rule registry_ok_same_projects)
    with SaveProjects Inr show ?thesis by simp
  qed
qed

lemma update_first_hit:
  assumes "length (filter P xs) \<le> 1" "x \<in> set (update_first P f xs)" "P x"
    and "\<And>y. P y \<Longrightarrow> P (f y)"
  shows "x \<in> f ` set xs"
  using assms(1,2,3)
proof (induction xs)
  case Nil
  then show ?case by simp
next
  case (Cons a xs)
  show ?case
  proof (cases "P a")
    case True
    then have none: "filter P xs = []" using Cons.prems(1) by simp
    from True Cons.prems(2) have "x = f a \<or> x \<in> set xs" by simp
    then show ?thesis
    proof
      assume "x = f a" then show ?thesis by simp
    next
      assume "x \<in> set xs"
      with none Cons.prems(3) have False by (auto simp: filter_empty_conv)
      then show ?thesis ..
    qed
  next
    case False
    with Cons.prems have "x \<in> set (update_first P f xs)" "length (filter P xs) \<le> 1" by auto
    then have "x \<in> f ` set xs" using Cons.IH Cons.prems(3) by blast
    then show ?thesis by auto
  qed
qed

lemma ensured_worktrees:
  "the_worktrees (ensureDefaultWorktree h info) =
     map (\<lambda>w. w\<lparr> w_path := canonicalizePath h
                                (if w_path w \<noteq> [] then w_path w else canonicalizePath h (p_path info)),
                   w_title := (if w_id w = ''default'' then ''default''
                               else if w_title w \<noteq> [] then w_title w else w_id w) \<rparr>)
       (case find (\<lambda>w. w_id w = ''default'') (the_worktrees info) of
          Some existingDefault \<Rightarrow>
            update_first (\<lambda>w. w_id w = ''default'')
              (\<lambda>w. w\<lparr>w_path := canonicalizePath h (p_path info), w_title := ''default''\<rparr>)
              (the_worktrees info)
        | None \<Rightarrow>
            the_worktrees info @ [\<lparr> w_id = ''default'', w_path = canonicalizePath h (p_path info),
                                     w_title = ''default'' \<rparr>])"
  by (cases "find (\<lambda>w. w_id w = ''default'') (the_worktrees info)")
     (simp_all add: ensureDefaultWorktree_def Let_def the_worktrees_def)

lemma ensured_default_title:
  assumes "w \<in> set (the_worktrees (ensureDefaultWorktree h info))" "w_id w = ''default''"
  shows "w_title w = ''default''"
  using assms unfolding ensured_worktrees by auto

lemma ensured_default_path:
  assumes one: "default_count info \<le> 1"
    and w: "w \<in> set (the_worktrees (ensureDefaultWorktree h info))" "w_id w = ''default''"
  shows "w_path w = canonicalizePath h (p_path (ensureDefaultWorktree h info))"
proof -
  let ?npp = "canonicalizePath h (p_path info)"
  let ?P = "\<lambda>w. w_id w = ''default''"
  let ?f = "\<lambda>w. w\<lparr>w_path := ?npp, w_title := ''default''\<rparr>"
  let ?g = "\<lambda>w. w\<lparr> w_path := canonicalizePath h (if w_path w \<noteq> [] then w_path w else ?npp),
                    w_title := (if w_id w = ''default'' then ''default''
                                else if w_title w \<noteq> [] then w_title w else w_id w) \<rparr>"
  define ws1 where "ws1 =
     (case find ?P (the_worktrees info) of
        Some existingDefault \<Rightarrow> update_first ?P ?f (the_worktrees info)
      | None \<Rightarrow> the_worktrees info @ [\<lparr> w_id = ''default'', w_path = ?npp, w_title = ''default'' \<rparr>])"
  have res: "the_worktrees (ensureDefaultWorktree h info) = map ?g ws1"
    unfolding ws1_def by (rule ensured_worktrees)
  have pp: "p_path (ensureDefaultWorktree h info) = ?npp"
    by (simp add: ensureDefaultWorktree_fields)
  from w res obtain v where v: "v \<in> set ws1" "w = ?g v" by auto
  then have vid: "w_id v = ''default''" using w(2) by simp
  have vpath: "w_path v = ?npp"
  proof (cases "find ?P (the_worktrees info)")
    case None
    then have "\<forall>x \<in> set (the_worktrees info). w_id x \<noteq> ''default''"
      by (auto simp: find_None_iff)
    with None v(1) vid show ?thesis by (auto simp: ws1_def)
  next
    case (Some d)
    then have "v \<in> set (update_first ?P ?f (the_worktrees info))" using v(1) by (simp add: ws1_def)
    moreover have "length (filter ?P (the_worktrees info)) \<le> 1"
      using one by (simp add: default_count_def)
    ultimately have "v \<in> ?f ` set (the_worktrees info)"
      using vid by (intro update_first_hit [where P = ?P]) simp_all
    then show ?thesis by auto
  qed
  show ?thesis unfolding pp using v(2) vpath by simp
qed

section \<open>Properties of the worktree reconciler\<close>

text \<open>
  The orphan cleanup on the records it was meant for: a listing run that returns removes
  every record of its metadata snapshot, other than \<open>default\<close>, whose normalized path
  is not the path of a live entry.
\<close>

lemma removeWorktreeMetadata_ids:
  assumes "map_of (projects reg) projectId = Some info"
  shows "\<exists>info'. map_of (projects (snd (removeWorktreeMetadata h projectId w reg))) projectId = Some info'
           \<and> map w_id (the_worktrees info') =
               (if w = ''default'' then map w_id (the_worktrees (ensureDefaultWorktree h info))
                else filter (\<lambda>i. i \<noteq> w) (map w_id (the_worktrees (ensureDefaultWorktree h info))))"
  using assms
  by (simp add: removeWorktreeMetadata_def Let_def update_conv' filter_map comp_def)

lemma ensured_ids_subset:
  "set (map w_id (the_worktrees (ensureDefaultWorktree h info)))
     = insert ''default'' (set (map w_id (the_worktrees info)))"
  unfolding ensureDefaultWorktree_ids by auto

lemma removeWorktreeMetadata_keeps_absent:
  assumes p: "map_of (projects reg) projectId = Some info"
    and x: "x \<noteq> ''default''" "x \<notin> set (map w_id (the_worktrees info))"
  shows "\<exists>info'. map_of (projects (snd (removeWorktreeMetadata h projectId w reg))) projectId = Some info'
           \<and> x \<notin> set (map w_id (the_worktrees info'))"
proof -
  from removeWorktreeMetadata_ids [OF p, of h w] obtain info' where
    i: "map_of (projects (snd (removeWorktreeMetadata h projectId w reg))) projectId = Some info'"
    and ids: "map w_id (the_worktrees info') =
               (if w = ''default'' then map w_id (the_worktrees (ensureDefaultWorktree h info))
                else filter (\<lambda>i. i \<noteq> w) (map w_id (the_worktrees (ensureDefaultWorktree h info))))"
    by blast
  have "x \<notin> set (map w_id (the_worktrees (ensureDefaultWorktree h info)))"
    unfolding ensured_ids_subset using x by simp
  then have "x \<notin> set (map w_id (the_worktrees info'))"
    unfolding ids by (cases "w = ''default''") auto
  with i show ?thesis by blast
qed

lemma removeWorktreeMetadata_removes:
  assumes p: "map_of (projects reg) projectId = Some info" and w: "w \<noteq> ''default''"
  shows "\<exists>info'. map_of (projects (snd (removeWorktreeMetadata h projectId w reg))) projectId = Some info'
           \<and> w \<notin> set (map w_id (the_worktrees info'))"
proof -
  from removeWorktreeMetadata_ids [OF p, of h w] obtain info' where
    i: "map_of (projects (snd (removeWorktreeMetadata h projectId w reg))) projectId = Some info'"
    and ids: "map w_id (the_worktrees info') =
               filter (\<lambda>i. i \<noteq> w) (map w_id (the_worktrees (ensureDefaultWorktree h info)))"
    using w by auto
  have "w \<notin> set (map w_id (the_worktrees info'))" unfolding ids by simp
  with i show ?thesis by blast
qed

lemma cleanup_orphans_keeps_absent:
  assumes "map_of (projects reg) projectId = Some info"
    and "x \<noteq> ''default''" "x \<notin> set (map w_id (the_worktrees info))"
  shows "\<exists>info'. map_of (projects (cleanup_orphans h projectId present metas reg)) projectId = Some info'
           \<and> x \<notin> set (map w_id (the_worktrees info'))"
  using assms
proof (induction metas arbitrary: reg info)
  case Nil
  then show ?case by simp
next
  case (Cons meta metas)
  show ?case
  proof (cases "w_id meta \<noteq> ''default'' \<and> normalizePath h (w_path meta) \<notin> set present")
    case True
    from removeWorktreeMetadata_keeps_absent [OF Cons.prems, of h "w_id meta"]
    obtain info1 where
      "map_of (projects (snd (removeWorktreeMetadata h projectId (w_id meta) reg))) projectId = Some info1"
      "x \<notin> set (map w_id (the_worktrees info1))" by blast
    from Cons.IH [OF this(1) Cons.prems(2) this(2)] True show ?thesis by simp
  next
    case False
    from Cons.IH [OF Cons.prems] False show ?thesis by auto
  qed
qed

lemma cleanup_orphans_removes:
  assumes "map_of (projects reg) projectId = Some info"
    and "meta \<in> set metas" "w_id meta \<noteq> ''default''"
    and "normalizePath h (w_path meta) \<notin> set present"
  shows "\<exists>info'. map_of (projects (cleanup_orphans h projectId present metas reg)) projectId = Some info'
           \<and> w_id meta \<notin> set (map w_id (the_worktrees info'))"
  using assms(1,2)
proof (induction metas arbitrary: reg info)
  case Nil
  then show ?case by simp
next
  case (Cons m metas)
  let ?orphan = "\<lambda>m. w_id m \<noteq> ''default'' \<and> normalizePath h (w_path m) \<notin> set present"
  show ?case
  proof (cases "m = meta")
    case True
    from removeWorktreeMetadata_removes [OF Cons.prems(1) assms(3), of h]
    obtain info1 where
      i1: "map_of (projects (snd (removeWorktreeMetadata h projectId (w_id meta) reg))) projectId = Some info1"
      "w_id meta \<notin> set (map w_id (the_worktrees info1))" by blast
    from cleanup_orphans_keeps_absent [OF i1(1) assms(3) i1(2), of h present metas]
    show ?thesis using True assms(3,4) by simp
  next
    case False
    then have mem: "meta \<in> set metas" using Cons.prems(2) by simp
    show ?thesis
    proof (cases "?orphan m")
      case True
      from removeWorktreeMetadata_ids [OF Cons.prems(1), of h "w_id m"]
      obtain info1 where
        "map_of (projects (snd (removeWorktreeMetadata h projectId (w_id m) reg))) projectId = Some info1"
        by blast
      from Cons.IH [OF this mem] True show ?thesis by simp
    next
      case False
      from Cons.IH [OF Cons.prems(1) mem] False show ?thesis by auto
    qed
  qed
qed

lemma ensureWorktreeMetadata_keeps_project:
  assumes "map_of (projects reg) projectId = Some info"
  shows "\<exists>info'. map_of (projects (snd (ensureWorktreeMetadata h projectId p t reg))) projectId = Some info'"
  using assms
  by (cases "find (\<lambda>w. canonicalizePath h (w_path w) = canonicalizePath h p)
               (the_worktrees (ensureDefaultWorktree h info))")
     (simp_all add: ensureWorktreeMetadata_def Let_def update_conv')

lemma reconcile_entry_keeps_project:
  assumes p: "map_of (projects reg) projectId = Some info"
    and r: "reconcile_entry h projectId entry (reg, cs, rs) = Inr (reg', cs', rs')"
  shows "\<exists>info'. map_of (projects reg') projectId = Some info'"
proof (cases "findMetadataForEntry h cs (pw_path entry)")
  case (Some meta)
  with r have "reg' = reg" by (simp add: reconcile_entry_def Let_def)
  with p show ?thesis by simp
next
  case None
  obtain m reg1 where e: "ensureWorktreeMetadata h projectId (pw_path entry)
                            (Some (suggested_title entry)) reg = (m, reg1)"
    by (cases "ensureWorktreeMetadata h projectId (pw_path entry) (Some (suggested_title entry)) reg")
  with None r have "reg' = reg1"
    by (cases m) (simp_all add: reconcile_entry_def Let_def)
  moreover have "\<exists>info'. map_of (projects reg1) projectId = Some info'"
    using ensureWorktreeMetadata_keeps_project [OF p, of h "pw_path entry" "Some (suggested_title entry)"] e
    by simp
  ultimately show ?thesis by simp
qed

lemma reconcile_entries_keeps_project:
  assumes "map_of (projects reg) projectId = Some info"
    and "reconcile_entries h projectId entries (reg, cs, rs) = Inr (reg', cs', rs')"
  shows "\<exists>info'. map_of (projects reg') projectId = Some info'"
  using assms
proof (induction entries arbitrary: reg cs rs info)
  case Nil
  then show ?case by simp
next
  case (Cons entry entries)
  from Cons.prems(2) obtain reg1 cs1 rs1 where
    s1: "reconcile_entry h projectId entry (reg, cs, rs) = Inr (reg1, cs1, rs1)"
    and rest: "reconcile_entries h projectId entries (reg1, cs1, rs1) = Inr (reg', cs', rs')"
    by (auto split: sum.splits)
  from reconcile_entry_keeps_project [OF Cons.prems(1) s1] obtain info1 where
    "map_of (projects reg1) projectId = Some info1" by blast
  from Cons.IH [OF this rest] show ?case .
qed

lemma listing_deletes_orphans:
  assumes run: "buildWorktreeResponses h (Some parsed0) projectId reg = (Inr responses, reg')"
    and meta: "meta \<in> set (fst (getWorktrees h projectId reg))"
    and nd: "w_id meta \<noteq> ''default''"
    and gone: "normalizePath h (w_path meta)
                 \<notin> set (map pw_path (filter (\<lambda>entry. h_stat h (pw_path entry) = IsDirectory) parsed0))"
  shows "\<exists>info'. map_of (projects reg') projectId = Some info'
           \<and> w_id meta \<notin> set (map w_id (the_worktrees info'))"
proof -
  let ?parsed = "filter (\<lambda>entry. h_stat h (pw_path entry) = IsDirectory) parsed0"
  from run obtain info where p: "map_of (projects reg) projectId = Some info"
    by (cases "map_of (projects reg) projectId") (auto simp: buildWorktreeResponses_def getProject_def)
  define info1 where "info1 = ensureDefaultWorktree h info"
  define reg1 where "reg1 = reg\<lparr>projects := AList.update projectId info1 (projects reg)\<rparr>"
  have gw: "getWorktrees h projectId reg = (the_worktrees info1, reg1)"
    using p by (simp add: getWorktrees_def Let_def info1_def reg1_def)
  have p1: "map_of (projects reg1) projectId = Some info1"
    by (simp add: reg1_def update_conv')
  from run p gw obtain reg2 cs rs where
    loop: "reconcile_entries h projectId ?parsed (reg1, map (make_candidate h) (the_worktrees info1), [])
             = Inr (reg2, cs, rs)"
    and save: "saveProjects h (cleanup_orphans h projectId (map pw_path ?parsed) (the_worktrees info1) reg2)
             = Inr reg'"
    by (auto simp: buildWorktreeResponses_def getProject_def Let_def split: sum.splits)
  from reconcile_entries_keeps_project [OF p1 loop] obtain info2 where
    p2: "map_of (projects reg2) projectId = Some info2" by blast
  have m: "meta \<in> set (the_worktrees info1)" using meta gw by simp
  from cleanup_orphans_removes [OF p2 m nd gone]
  obtain info3 where
    "map_of (projects (cleanup_orphans h projectId (map pw_path ?parsed) (the_worktrees info1) reg2))
       projectId = Some info3"
    "w_id meta \<notin> set (map w_id (the_worktrees info3))" by blast
  moreover have "projects reg'
      = projects (cleanup_orphans h projectId (map pw_path ?parsed) (the_worktrees info1) reg2)"
    using save by (rule saveProjects_projects)
  ultimately show ?thesis by auto
qed

text \<open>
  C7, at the input where the code departs from it. The persisted record \<open>feat\<close> has
  the real path \<open>/home/u/real/wt\<close>; git lists the worktree under the symlinked path
  \<open>/home/u/link/wt\<close>. The listing matches the record through the real path and
  reports it, and the orphan cleanup of the same run then deletes it, because it compares
  the record's path with the listed paths as strings.
\<close>

theorem listing_removes_metadata_matched_by_real_path:
  "findMetadataForEntry registry_host
     (map (make_candidate registry_host)
        [\<lparr> w_id = ''default'', w_path = ''/home/u/repo'', w_title = ''default'' \<rparr>,
         \<lparr> w_id = ''feat'', w_path = ''/home/u/real/wt'', w_title = ''Login Page'' \<rparr>])
     ''/home/u/link/wt''
   = Some \<lparr> w_id = ''feat'', w_path = ''/home/u/real/wt'', w_title = ''Login Page'' \<rparr>
   \<and> map r_id (case fst (buildWorktreeResponses registry_host (Some example_listing) ''p1''
                          (example_registry ''feat'' ''Login Page'')) of
                 Inr responses \<Rightarrow> responses | Inl e \<Rightarrow> [])
       = [''default'', ''feat'']
   \<and> map_option the_worktrees
         (map_of (projects (snd (buildWorktreeResponses registry_host (Some example_listing) ''p1''
                                   (example_registry ''feat'' ''Login Page'')))) ''p1'')
       = Some [\<lparr> w_id = ''default'', w_path = ''/home/u/repo'', w_title = ''default'' \<rparr>]"
  by (simp add: buildWorktreeResponses_def getProject_def getWorktrees_def example_registry_def
        example_listing_def ensure_example host_examples norm_examples canon_wt make_candidate_def
        findMetadataForEntry_def reconcile_entry_def the_worktrees_def effectiveIsPrimary_def
        removeWorktreeMetadata_def saveProjects_def applyDefaultSettings_def
        ensureDefaultWorktree_def Let_def)

end
